theory Spec2Isabelle
  imports Main "HOL-Library.Sublist"
begin

section \<open>The notebook \<open>cle_bc.ipynb\<close> as a program over an external world\<close>

text \<open>
  The notebook \<^verbatim>\<open>Examples/torch/quantization/cle_bc.ipynb\<close> is a straight-line script
  whose every non-trivial operation is a call into a library (torch, torchvision, AIMET,
  the repository's ImageNet helpers, the Python standard library). The embedding keeps
  the script and makes the libraries a parameter: an environment \<open>env\<close> answers every
  library call from the current state of the external world, either with a Python value
  or with an exception of the library, and returns the new state of the world. One library
  call, \<^verbatim>\<open>compute_encodings\<close>, is given a function of the notebook and calls it back; how
  often and on which objects is again for the environment to say. The theorems hold for
  every environment.
\<close>

subsection \<open>Python values\<close>

text \<open>
  A library hands back scalars or objects. An object is known to the notebook by its
  identity only (\<open>PyObj n\<close>): its contents live in the external world.
\<close>

datatype pyval = PyNone | PyBool bool | PyInt int | PyStr string | PyObj nat

text \<open>\<^verbatim>\<open>aimet_common.defs.QuantScheme\<close>, the two members the notebook names.\<close>

datatype quant_scheme = post_training_tf | post_training_tf_enhanced

text \<open>\<^verbatim>\<open>torch.device('cuda')\<close>.\<close>

datatype device = TorchDevice string

text \<open>The dictionary \<^verbatim>\<open>config\<close> with its three keys.\<close>

record config =
  dataset_dir :: string
  use_cuda :: bool
  logdir :: string

text \<open>
  \<^verbatim>\<open>Examples.common.image_net_config\<close> is a module of constants that the notebook imports;
  the three entries it reads (\<^verbatim>\<open>dataset['image_size']\<close>, \<^verbatim>\<open>evaluation['batch_size']\<close>,
  \<^verbatim>\<open>evaluation['num_workers']\<close>) are taken as a parameter.
\<close>

record image_net_config =
  image_size :: int
  batch_size :: int
  num_workers :: int

text \<open>An instance of the notebook's class \<^verbatim>\<open>ImageNetDataPipeline\<close>: its only attribute is \<^verbatim>\<open>_config\<close>.\<close>

record ImageNetDataPipeline =
  self_config :: config

text \<open>
  \<^verbatim>\<open>partial(data_pipeline.evaluate, use_cuda=config['use_cuda'])\<close>: the closure handed to
  \<^verbatim>\<open>compute_encodings\<close> as \<^verbatim>\<open>forward_pass_callback\<close>. The library decides how often it
  calls the closure and with which two positional arguments; what the closure then does
  is code of the notebook (\<open>callback_apply\<close> below).
\<close>

datatype callback = PartialEvaluate ImageNetDataPipeline bool

subsection \<open>Library calls\<close>

text \<open>One constructor for each library call the notebook makes, with the arguments it passes.\<close>

datatype call =
    FilterWarnings string string
    \<comment> \<open>\<^verbatim>\<open>warnings.filterwarnings(action, message)\<close>\<close>
  | OsMakedirs string bool
    \<comment> \<open>\<^verbatim>\<open>os.makedirs(path, exist_ok=...)\<close>\<close>
  | Resnet18 bool
    \<comment> \<open>\<^verbatim>\<open>resnet18(pretrained=...)\<close>\<close>
  | ModuleTo pyval device
    \<comment> \<open>\<^verbatim>\<open>model.to(device)\<close>\<close>
  | ModuleEval pyval
    \<comment> \<open>\<^verbatim>\<open>model.eval()\<close>\<close>
  | NewImageNetEvaluator string int int int
    \<comment> \<open>\<^verbatim>\<open>ImageNetEvaluator(dir, image_size=, batch_size=, num_workers=)\<close>\<close>
  | EvaluatorEvaluate pyval pyval "int option" bool
    \<comment> \<open>\<^verbatim>\<open>evaluator.evaluate(model, iterations, use_cuda)\<close>\<close>
  | NewImageNetDataLoader bool string int
    \<comment> \<open>\<^verbatim>\<open>ImageNetDataLoader(is_training=, images_dir=, image_size=)\<close>\<close>
  | GetAttr pyval string
    \<comment> \<open>reading an attribute of a library object: \<^verbatim>\<open>.data_loader\<close>, \<^verbatim>\<open>.model\<close>\<close>
  | Print string pyval
    \<comment> \<open>\<^verbatim>\<open>print(label, value)\<close>\<close>
  | TorchRand "int list"
    \<comment> \<open>\<^verbatim>\<open>torch.rand(*shape)\<close>\<close>
  | TensorTo pyval device
    \<comment> \<open>\<^verbatim>\<open>tensor.to(device)\<close>\<close>
  | CopyDeepcopy pyval
    \<comment> \<open>\<^verbatim>\<open>copy.deepcopy(obj)\<close>\<close>
  | FoldAllBatchNorms pyval "int list"
    \<comment> \<open>\<^verbatim>\<open>fold_all_batch_norms(model, input_shapes=)\<close>\<close>
  | NewQuantizationSimModel pyval quant_scheme pyval string int int "bool option"
    \<comment> \<open>\<^verbatim>\<open>QuantizationSimModel(model=, quant_scheme=, dummy_input=, rounding_mode=,
        default_output_bw=, default_param_bw=[, in_place=])\<close>\<close>
  | ComputeEncodings pyval callback int
    \<comment> \<open>\<^verbatim>\<open>sim.compute_encodings(forward_pass_callback=, forward_pass_callback_args=)\<close>\<close>
  | EqualizeModel pyval "int list"
    \<comment> \<open>\<^verbatim>\<open>equalize_model(model, input_shapes=)\<close>\<close>
  | NewQuantParams int int string quant_scheme
    \<comment> \<open>\<^verbatim>\<open>QuantParams(weight_bw=, act_bw=, round_mode=, quant_scheme=)\<close>\<close>
  | CorrectBias pyval pyval int pyval int
    \<comment> \<open>\<^verbatim>\<open>correct_bias(model, params, num_quant_samples=, data_loader=,
        num_bias_correct_samples=)\<close>\<close>
  | TorchSave pyval string
    \<comment> \<open>\<^verbatim>\<open>torch.save(obj, path)\<close>\<close>

text \<open>
  The environment. \<open>call_ext\<close> answers a library call in a world: \<open>Inl x\<close> is an exception
  \<open>x\<close> of the library, \<open>Inr v\<close> the value returned. A call that is given a callback hands
  control back to the notebook before it answers: \<open>enter\<close> is the work of the library up
  to there. It leaves a new world and says which invocations of the callback the library
  makes, in order: for each one the object passed as first argument (the model) and the
  value passed as second argument. \<^verbatim>\<open>torch.cuda.is_available()\<close>,
  \<^verbatim>\<open>datetime.now().strftime(fmt)\<close> and \<^verbatim>\<open>os.path.join(a, b)\<close> are queries that return
  a value and change nothing.
\<close>

record ('w, 'x) env =
  call_ext :: "call \<Rightarrow> 'w \<Rightarrow> ('x + pyval) \<times> 'w"
  enter :: "call \<Rightarrow> 'w \<Rightarrow> (pyval \<times> int option) list \<times> 'w"
  cuda_is_available :: "'w \<Rightarrow> bool"
  strftime_now :: "string \<Rightarrow> 'w \<Rightarrow> string"
  os_path_join :: "string \<Rightarrow> string \<Rightarrow> string"

subsection \<open>Exceptions, state and sequencing\<close>

text \<open>
  An exception is either raised by a \<^verbatim>\<open>raise\<close> statement of the notebook (with its
  message) or comes out of a library call.
\<close>

datatype 'x exn = Raised string | External 'x

text \<open>
  The state is the external world and the log of the library calls answered so far, in
  the order of the answers: each entry is the call, the world in which the library
  answered it, and the answer.
\<close>

type_synonym ('w, 'x) event = "call \<times> 'w \<times> ('x + pyval)"

record ('w, 'x) state =
  world :: 'w
  trace :: "('w, 'x) event list"

type_synonym ('a, 'w, 'x) prog = "('w, 'x) state \<Rightarrow> ('x exn + 'a) \<times> ('w, 'x) state"

definition ret :: "'a \<Rightarrow> ('a, 'w, 'x) prog" where
  "ret a s = (Inr a, s)"

text \<open>Statement sequencing: an exception of the first statement ends the run.\<close>

definition bnd :: "('a, 'w, 'x) prog \<Rightarrow> ('a \<Rightarrow> ('b, 'w, 'x) prog) \<Rightarrow> ('b, 'w, 'x) prog" where
  "bnd m f s = (case m s of (Inl e, s') \<Rightarrow> (Inl e, s') | (Inr a, s') \<Rightarrow> f a s')"

text \<open>\<^verbatim>\<open>raise Exception(msg)\<close>.\<close>

definition raise :: "string \<Rightarrow> ('a, 'w, 'x) prog" where
  "raise msg s = (Inl (Raised msg), s)"

text \<open>A library call: answered by the environment and logged.\<close>

definition ext_call :: "('w, 'x) env \<Rightarrow> call \<Rightarrow> (pyval, 'w, 'x) prog" where
  "ext_call env c s =
     (case call_ext env c (world s) of
        (Inl x, w') \<Rightarrow>
          (Inl (External x), \<lparr>world = w', trace = trace s @ [(c, world s, Inl x)]\<rparr>)
      | (Inr v, w') \<Rightarrow>
          (Inr v, \<lparr>world = w', trace = trace s @ [(c, world s, Inr v)]\<rparr>))"

definition torch_cuda_is_available :: "('w, 'x) env \<Rightarrow> (bool, 'w, 'x) prog" where
  "torch_cuda_is_available env s = (Inr (cuda_is_available env (world s)), s)"

definition datetime_now_strftime :: "('w, 'x) env \<Rightarrow> string \<Rightarrow> (string, 'w, 'x) prog" where
  "datetime_now_strftime env fmt s = (Inr (strftime_now env fmt (world s)), s)"

subsection \<open>The class \<open>ImageNetDataPipeline\<close>\<close>

definition ImageNetDataPipeline_init :: "config \<Rightarrow> ImageNetDataPipeline" where
  "ImageNetDataPipeline_init cfg = \<lparr>self_config = cfg\<rparr>"

definition ImageNetDataPipeline_data_loader ::
  "('w, 'x) env \<Rightarrow> image_net_config \<Rightarrow> ImageNetDataPipeline \<Rightarrow> (pyval, 'w, 'x) prog" where
  "ImageNetDataPipeline_data_loader env inc self =
     bnd (ext_call env (NewImageNetDataLoader False (dataset_dir (self_config self))
                          (image_size inc)))
       (\<lambda>loader. ext_call env (GetAttr loader ''data_loader''))"

text \<open>
  \<^verbatim>\<open>evaluate(self, model, iterations=None, use_cuda=False)\<close>: the default values are
  supplied by the callers below.
\<close>

definition ImageNetDataPipeline_evaluate ::
  "('w, 'x) env \<Rightarrow> image_net_config \<Rightarrow> ImageNetDataPipeline \<Rightarrow> pyval \<Rightarrow> int option \<Rightarrow> bool
     \<Rightarrow> (pyval, 'w, 'x) prog" where
  "ImageNetDataPipeline_evaluate env inc self m iterations uc =
     bnd (ext_call env (NewImageNetEvaluator (dataset_dir (self_config self))
                          (image_size inc) (batch_size inc) (num_workers inc)))
       (\<lambda>evaluator. ext_call env (EvaluatorEvaluate evaluator m iterations uc))"

subsection \<open>The callback of \<open>compute_encodings\<close>\<close>

text \<open>
  The library calls \<^verbatim>\<open>forward_pass_callback(model, args)\<close>. The callback is
  \<^verbatim>\<open>partial(data_pipeline.evaluate, use_cuda=...)\<close>, so this is
  \<^verbatim>\<open>data_pipeline.evaluate(model, args, use_cuda=...)\<close>: the second argument lands in
  \<^verbatim>\<open>iterations\<close>.
\<close>

definition callback_apply ::
  "('w, 'x) env \<Rightarrow> image_net_config \<Rightarrow> callback \<Rightarrow> pyval \<Rightarrow> int option
     \<Rightarrow> (pyval, 'w, 'x) prog" where
  "callback_apply env inc cb m args =
     (case cb of PartialEvaluate self uc \<Rightarrow>
        ImageNetDataPipeline_evaluate env inc self m args uc)"

text \<open>
  The invocations of the callback during one library call, in order. The library has no
  handler around the callback: an exception of the callback ends the library call with
  that exception.
\<close>

fun run_callbacks ::
  "('w, 'x) env \<Rightarrow> image_net_config \<Rightarrow> callback \<Rightarrow> (pyval \<times> int option) list
     \<Rightarrow> (unit, 'w, 'x) prog" where
  "run_callbacks env inc cb [] = ret ()"
| "run_callbacks env inc cb (u # us) =
     bnd (callback_apply env inc cb (fst u) (snd u)) (\<lambda>_. run_callbacks env inc cb us)"

text \<open>
  A library call that is given a callback: the library starts (\<open>enter\<close>), the callback
  runs as often as the library invokes it, each time making the library calls of
  \<^verbatim>\<open>evaluate\<close>, and then the library answers the call (\<open>call_ext\<close>), which is logged. So
  in the log, which is in the order of the answers, a call with a callback comes after
  the calls that its callback made. When the callback ends with an exception, the call
  has no answer of its own and no entry in the log.
\<close>

definition ext_call_with_callback ::
  "('w, 'x) env \<Rightarrow> image_net_config \<Rightarrow> call \<Rightarrow> callback \<Rightarrow> (pyval, 'w, 'x) prog" where
  "ext_call_with_callback env inc c cb s =
     (case enter env c (world s) of
        (uses, w1) \<Rightarrow>
          bnd (run_callbacks env inc cb uses) (\<lambda>_. ext_call env c) (s\<lparr>world := w1\<rparr>))"

text \<open>
  \<^verbatim>\<open>sim.compute_encodings(forward_pass_callback=cb, forward_pass_callback_args=n)\<close>.
\<close>

definition compute_encodings ::
  "('w, 'x) env \<Rightarrow> image_net_config \<Rightarrow> pyval \<Rightarrow> callback \<Rightarrow> int \<Rightarrow> (pyval, 'w, 'x) prog" where
  "compute_encodings env inc sim cb n =
     ext_call_with_callback env inc (ComputeEncodings sim cb n) cb"

subsection \<open>The notebook's global variables\<close>

text \<open>
  The cells communicate through the global names of the notebook. The cells run top to
  bottom, and every name is assigned before it is read; \<open>globals_init\<close> only fills the
  record before the first assignments.
\<close>

record globals =
  config :: config
  data_pipeline :: ImageNetDataPipeline
  model :: pyval
  accuracy :: pyval
  quant_scheme :: quant_scheme
  rounding_mode :: string
  default_output_bw :: int
  default_param_bw :: int
  num_batches :: int
  dummy_input :: pyval
  BN_folded_model :: pyval
  quantizer :: pyval
  cle_quantizer :: pyval
  num_quant_samples :: int
  num_bias_correct_samples :: int
  data_loader :: pyval
  bc_params :: pyval
  bc_quantizer :: pyval

definition globals_init :: globals where
  "globals_init =
     \<lparr>config = \<lparr>dataset_dir = [], use_cuda = False, logdir = []\<rparr>,
      data_pipeline = \<lparr>self_config = \<lparr>dataset_dir = [], use_cuda = False, logdir = []\<rparr>\<rparr>,
      model = PyNone, accuracy = PyNone, quant_scheme = post_training_tf,
      rounding_mode = [], default_output_bw = 0, default_param_bw = 0, num_batches = 0,
      dummy_input = PyNone, BN_folded_model = PyNone, quantizer = PyNone,
      cle_quantizer = PyNone, num_quant_samples = 0, num_bias_correct_samples = 0,
      data_loader = PyNone, bc_params = PyNone, bc_quantizer = PyNone\<rparr>"

subsection \<open>The cells\<close>

text \<open>The import cell: its one statement besides the imports.\<close>

definition cell_imports :: "('w, 'x) env \<Rightarrow> globals \<Rightarrow> (globals, 'w, 'x) prog" where
  "cell_imports env g =
     bnd (ext_call env (FilterWarnings ''ignore'' ''.*param.*'')) (\<lambda>_. ret g)"

text \<open>
  The configuration cell. The notebook tells its user to edit the literals of
  \<^verbatim>\<open>dataset_dir\<close> and \<^verbatim>\<open>use_cuda\<close>, so they are parameters; the file as committed has
  \<^verbatim>\<open>"path/to/dataset"\<close> and \<^verbatim>\<open>True\<close>.
\<close>

definition committed_dataset_dir :: string where
  "committed_dataset_dir = ''path/to/dataset''"

definition committed_use_cuda :: bool where
  "committed_use_cuda = True"

definition cell_config ::
  "('w, 'x) env \<Rightarrow> string \<Rightarrow> bool \<Rightarrow> globals \<Rightarrow> (globals, 'w, 'x) prog" where
  "cell_config env dir uc g =
     bnd (datetime_now_strftime env ''%Y-%m-%d-%H-%M-%S'') (\<lambda>stamp.
     let g = g\<lparr>config := \<lparr>dataset_dir = dir, use_cuda = uc,
                             logdir = os_path_join env ''benchmark_output''
                                        (''cle_bc_'' @ stamp)\<rparr>\<rparr>
     in bnd (ext_call env (OsMakedirs (logdir (config g)) True)) (\<lambda>_. ret g))"

text \<open>
  The guard of the model cell:
  \<^verbatim>\<open>
  if config['use_cuda']:
      if torch.cuda.is_available():
          model.to(torch.device('cuda'))
      else:
          raise Exception("use_cuda is True but cuda is unavailable")
  \<close>
\<close>

definition use_cuda_guard :: "('w, 'x) env \<Rightarrow> globals \<Rightarrow> (unit, 'w, 'x) prog" where
  "use_cuda_guard env g =
     (if use_cuda (config g) then
        bnd (torch_cuda_is_available env) (\<lambda>available.
          if available then
            bnd (ext_call env (ModuleTo (model g) (TorchDevice ''cuda''))) (\<lambda>_. ret ())
          else raise ''use_cuda is True but cuda is unavailable'')
      else ret ())"

definition cell_model ::
  "('w, 'x) env \<Rightarrow> image_net_config \<Rightarrow> globals \<Rightarrow> (globals, 'w, 'x) prog" where
  "cell_model env inc g =
     (let g = g\<lparr>data_pipeline := ImageNetDataPipeline_init (config g)\<rparr> in
      bnd (ext_call env (Resnet18 True)) (\<lambda>m.
      let g = g\<lparr>model := m\<rparr> in
      bnd (use_cuda_guard env g) (\<lambda>_.
      bnd (ext_call env (ModuleEval (model g))) (\<lambda>_.
      bnd (ImageNetDataPipeline_evaluate env inc (data_pipeline g) (model g) None
             (use_cuda (config g))) (\<lambda>a.
      let g = g\<lparr>accuracy := a\<rparr> in
      bnd (ext_call env (Print ''Original Model Accuracy: '' (accuracy g))) (\<lambda>_.
      ret g))))))"

text \<open>
  The quantization parameters. \<^verbatim>\<open>num_batches = 5\<close> is commented out in the source;
  \<^verbatim>\<open>num_batches = 1\<close> is the statement that runs.
\<close>

definition cell_quant_params :: "globals \<Rightarrow> (globals, 'w, 'x) prog" where
  "cell_quant_params g =
     (let g = g\<lparr>quant_scheme := post_training_tf_enhanced\<rparr>;
          g = g\<lparr>rounding_mode := ''nearest''\<rparr>;
          g = g\<lparr>default_output_bw := 8\<rparr>;
          g = g\<lparr>default_param_bw := 8\<rparr>;
          g = g\<lparr>num_batches := 1\<rparr>
      in ret g)"

text \<open>
  The three quantization cells start with the same three lines:
  \<^verbatim>\<open>
  dummy_input = torch.rand(1, 3, 224, 224)
  if config['use_cuda']:
      dummy_input = dummy_input.to(torch.device('cuda'))
  \<close>
\<close>

definition make_dummy_input :: "('w, 'x) env \<Rightarrow> globals \<Rightarrow> (globals, 'w, 'x) prog" where
  "make_dummy_input env g =
     bnd (ext_call env (TorchRand [1, 3, 224, 224])) (\<lambda>t.
     let g = g\<lparr>dummy_input := t\<rparr> in
     if use_cuda (config g) then
       bnd (ext_call env (TensorTo (dummy_input g) (TorchDevice ''cuda''))) (\<lambda>t'.
       ret (g\<lparr>dummy_input := t'\<rparr>))
     else ret g)"

text \<open>The baseline quantization simulation, on a batch-norm folded copy of the model.\<close>

definition cell_quantsim ::
  "('w, 'x) env \<Rightarrow> image_net_config \<Rightarrow> globals \<Rightarrow> (globals, 'w, 'x) prog" where
  "cell_quantsim env inc g =
     bnd (make_dummy_input env g) (\<lambda>g.
     bnd (ext_call env (CopyDeepcopy (model g))) (\<lambda>c.
     let g = g\<lparr>BN_folded_model := c\<rparr> in
     bnd (ext_call env (FoldAllBatchNorms (BN_folded_model g) [1, 3, 224, 224])) (\<lambda>_.
     bnd (ext_call env (NewQuantizationSimModel (BN_folded_model g) (quant_scheme g)
            (dummy_input g) (rounding_mode g) (default_output_bw g) (default_param_bw g)
            None)) (\<lambda>q.
     let g = g\<lparr>quantizer := q\<rparr> in
     bnd (compute_encodings env inc (quantizer g)
            (PartialEvaluate (data_pipeline g) (use_cuda (config g))) (num_batches g)) (\<lambda>_.
     bnd (ext_call env (GetAttr (quantizer g) ''model'')) (\<lambda>qm.
     bnd (ImageNetDataPipeline_evaluate env inc (data_pipeline g) qm None False) (\<lambda>a.
     let g = g\<lparr>accuracy := a\<rparr> in
     bnd (ext_call env (Print ''Quantized (INT8) Model Top-1 Accuracy: '' (accuracy g)))
       (\<lambda>_. ret g))))))))"

text \<open>Cross-layer equalization; the value the call returns is dropped.\<close>

definition cell_equalize :: "('w, 'x) env \<Rightarrow> globals \<Rightarrow> (globals, 'w, 'x) prog" where
  "cell_equalize env g =
     bnd (ext_call env (EqualizeModel (model g) [1, 3, 224, 224])) (\<lambda>_. ret g)"

text \<open>The quantization simulation of the equalized model.\<close>

definition cell_cle_quantsim ::
  "('w, 'x) env \<Rightarrow> image_net_config \<Rightarrow> globals \<Rightarrow> (globals, 'w, 'x) prog" where
  "cell_cle_quantsim env inc g =
     bnd (make_dummy_input env g) (\<lambda>g.
     bnd (ext_call env (NewQuantizationSimModel (model g) (quant_scheme g)
            (dummy_input g) (rounding_mode g) (default_output_bw g) (default_param_bw g)
            None)) (\<lambda>q.
     let g = g\<lparr>cle_quantizer := q\<rparr> in
     bnd (compute_encodings env inc (cle_quantizer g)
            (PartialEvaluate (data_pipeline g) (use_cuda (config g))) (num_batches g)) (\<lambda>_.
     bnd (ext_call env (GetAttr (cle_quantizer g) ''model'')) (\<lambda>qm.
     bnd (ImageNetDataPipeline_evaluate env inc (data_pipeline g) qm None False) (\<lambda>a.
     let g = g\<lparr>accuracy := a\<rparr> in
     bnd (ext_call env
            (Print ''CLE applied Model Top-1 accuracy on Quant Simulator: '' (accuracy g)))
       (\<lambda>_. ret g))))))"

text \<open>
  The parameters of bias correction: four assignments, in this order.
  \<^verbatim>\<open>
  num_quant_samples = 16 #Typical
  num_bias_correct_samples = 16 #Typical

  num_quant_samples = 1 #Test
  num_bias_correct_samples = 1 #Test
  \<close>
\<close>

definition cell_bc_params :: "globals \<Rightarrow> (globals, 'w, 'x) prog" where
  "cell_bc_params g =
     (let g = g\<lparr>num_quant_samples := 16\<rparr>;
          g = g\<lparr>num_bias_correct_samples := 16\<rparr>;
          g = g\<lparr>num_quant_samples := 1\<rparr>;
          g = g\<lparr>num_bias_correct_samples := 1\<rparr>
      in ret g)"

text \<open>Bias correction; the value the call returns is dropped.\<close>

definition cell_bias_correction ::
  "('w, 'x) env \<Rightarrow> image_net_config \<Rightarrow> globals \<Rightarrow> (globals, 'w, 'x) prog" where
  "cell_bias_correction env inc g =
     bnd (ImageNetDataPipeline_data_loader env inc (data_pipeline g)) (\<lambda>l.
     let g = g\<lparr>data_loader := l\<rparr> in
     bnd (ext_call env (NewQuantParams (default_param_bw g) (default_output_bw g)
            (rounding_mode g) (quant_scheme g))) (\<lambda>p.
     let g = g\<lparr>bc_params := p\<rparr> in
     bnd (ext_call env (CorrectBias (model g) (bc_params g) (num_quant_samples g)
            (data_loader g) (num_bias_correct_samples g))) (\<lambda>_. ret g)))"

text \<open>The last cell: the simulation of the corrected model, then the checkpoint.\<close>

definition cell_bc_quantsim ::
  "('w, 'x) env \<Rightarrow> image_net_config \<Rightarrow> globals \<Rightarrow> (globals, 'w, 'x) prog" where
  "cell_bc_quantsim env inc g =
     bnd (make_dummy_input env g) (\<lambda>g.
     bnd (ext_call env (NewQuantizationSimModel (model g) (quant_scheme g)
            (dummy_input g) (rounding_mode g) (default_output_bw g) (default_param_bw g)
            (Some False))) (\<lambda>q.
     let g = g\<lparr>bc_quantizer := q\<rparr> in
     bnd (compute_encodings env inc (bc_quantizer g)
            (PartialEvaluate (data_pipeline g) (use_cuda (config g))) (num_batches g)) (\<lambda>_.
     bnd (ext_call env (GetAttr (bc_quantizer g) ''model'')) (\<lambda>qm.
     bnd (ImageNetDataPipeline_evaluate env inc (data_pipeline g) qm None False) (\<lambda>a.
     let g = g\<lparr>accuracy := a\<rparr> in
     bnd (ext_call env
            (Print ''Quantized (INT8) Model Top-1 Accuracy After Bias Correction: ''
               (accuracy g))) (\<lambda>_.
     bnd (ext_call env (TorchSave (model g)
            (os_path_join env (logdir (config g)) ''quantized_model.pth''))) (\<lambda>_.
     ret g)))))))"

subsection \<open>The notebook\<close>

text \<open>The cells in the order of the file, started with an empty log.\<close>

definition notebook_cells ::
  "('w, 'x) env \<Rightarrow> image_net_config \<Rightarrow> string \<Rightarrow> bool \<Rightarrow> (globals, 'w, 'x) prog" where
  "notebook_cells env inc dir uc =
     bnd (cell_imports env globals_init) (\<lambda>g.
     bnd (cell_config env dir uc g) (\<lambda>g.
     bnd (cell_model env inc g) (\<lambda>g.
     bnd (cell_quant_params g) (\<lambda>g.
     bnd (cell_quantsim env inc g) (\<lambda>g.
     bnd (cell_equalize env g) (\<lambda>g.
     bnd (cell_cle_quantsim env inc g) (\<lambda>g.
     bnd (cell_bc_params g) (\<lambda>g.
     bnd (cell_bias_correction env inc g) (\<lambda>g.
     cell_bc_quantsim env inc g)))))))))"

definition state_init :: "'w \<Rightarrow> ('w, 'x) state" where
  "state_init w = \<lparr>world = w, trace = []\<rparr>"

definition notebook ::
  "('w, 'x) env \<Rightarrow> image_net_config \<Rightarrow> string \<Rightarrow> bool \<Rightarrow> 'w
     \<Rightarrow> ('x exn + globals) \<times> ('w, 'x) state" where
  "notebook env inc dir uc w = notebook_cells env inc dir uc (state_init w)"

subsection \<open>A small library world to run the notebook in\<close>

text \<open>
  A concrete environment for running the definitions. Its world counts the objects
  allocated so far and lists the directories that exist. Constructors and copies return a
  new object; \<^verbatim>\<open>.to\<close> and \<^verbatim>\<open>.eval\<close> of a module return the module; the evaluator returns
  an accuracy; the placeholder dataset path of the committed file does not exist, so an
  evaluator or loader on it raises. Reading \<^verbatim>\<open>.model\<close> of a simulation returns a new
  object, as a simulation built with \<^verbatim>\<open>in_place=False\<close> wraps a copy of its model.
  \<^verbatim>\<open>compute_encodings\<close> invokes its callback once, on a new object and with the value of
  \<^verbatim>\<open>forward_pass_callback_args\<close>.
\<close>

record toy_world =
  next_id :: nat
  dirs :: "string list"

definition fresh :: "toy_world \<Rightarrow> (string + pyval) \<times> toy_world" where
  "fresh w = (Inr (PyObj (next_id w)), w\<lparr>next_id := Suc (next_id w)\<rparr>)"

fun toy_call :: "call \<Rightarrow> toy_world \<Rightarrow> (string + pyval) \<times> toy_world" where
  "toy_call (FilterWarnings a msg) w = (Inr PyNone, w)"
| "toy_call (OsMakedirs d e) w = (Inr PyNone, w\<lparr>dirs := d # dirs w\<rparr>)"
| "toy_call (Resnet18 p) w = fresh w"
| "toy_call (ModuleTo m d) w = (Inr m, w)"
| "toy_call (ModuleEval m) w = (Inr m, w)"
| "toy_call (NewImageNetEvaluator d i b n) w =
     (if d = committed_dataset_dir then (Inl ''FileNotFoundError'', w) else fresh w)"
| "toy_call (EvaluatorEvaluate e m i u) w = (Inr (PyInt 70), w)"
| "toy_call (NewImageNetDataLoader t d i) w =
     (if d = committed_dataset_dir then (Inl ''FileNotFoundError'', w) else fresh w)"
| "toy_call (GetAttr obj a) w = fresh w"
| "toy_call (Print l v) w = (Inr PyNone, w)"
| "toy_call (TorchRand sh) w = fresh w"
| "toy_call (TensorTo t d) w = fresh w"
| "toy_call (CopyDeepcopy obj) w = fresh w"
| "toy_call (FoldAllBatchNorms m sh) w = fresh w"
| "toy_call (NewQuantizationSimModel m qs d r ob pb ip) w = fresh w"
| "toy_call (ComputeEncodings q cb n) w = (Inr PyNone, w)"
| "toy_call (EqualizeModel m sh) w = (Inr PyNone, w)"
| "toy_call (NewQuantParams wb ab r qs) w = fresh w"
| "toy_call (CorrectBias m p nq l nb) w = (Inr PyNone, w)"
| "toy_call (TorchSave m p) w = (Inr PyNone, w)"

fun toy_enter :: "call \<Rightarrow> toy_world \<Rightarrow> (pyval \<times> int option) list \<times> toy_world" where
  "toy_enter (ComputeEncodings q cb n) w =
     ([(PyObj (next_id w), Some n)], w\<lparr>next_id := Suc (next_id w)\<rparr>)"
| "toy_enter c w = ([], w)"

definition toy_env :: "bool \<Rightarrow> (toy_world, string) env" where
  "toy_env cuda =
     \<lparr>call_ext = toy_call,
      enter = toy_enter,
      cuda_is_available = (\<lambda>w. cuda),
      strftime_now = (\<lambda>fmt w. ''2021-06-01-12-00-00''),
      os_path_join = (\<lambda>a b. a @ ''/'' @ b)\<rparr>"

definition toy_world_init :: toy_world where
  "toy_world_init = \<lparr>next_id = 0, dirs = []\<rparr>"

definition toy_inc :: image_net_config where
  "toy_inc = \<lparr>image_size = 224, batch_size = 128, num_workers = 32\<rparr>"

section \<open>Specification vocabulary\<close>

subsection \<open>Reading the log\<close>

text \<open>The Python name of a library call.\<close>

fun call_name :: "call \<Rightarrow> string" where
  "call_name (FilterWarnings a msg) = ''warnings.filterwarnings''"
| "call_name (OsMakedirs d e) = ''os.makedirs''"
| "call_name (Resnet18 p) = ''resnet18''"
| "call_name (ModuleTo m d) = ''model.to''"
| "call_name (ModuleEval m) = ''model.eval''"
| "call_name (NewImageNetEvaluator d i b n) = ''ImageNetEvaluator''"
| "call_name (EvaluatorEvaluate e m i u) = ''evaluator.evaluate''"
| "call_name (NewImageNetDataLoader t d i) = ''ImageNetDataLoader''"
| "call_name (GetAttr obj a) = CHR ''.'' # a"
| "call_name (Print l v) = ''print''"
| "call_name (TorchRand sh) = ''torch.rand''"
| "call_name (TensorTo t d) = ''tensor.to''"
| "call_name (CopyDeepcopy obj) = ''copy.deepcopy''"
| "call_name (FoldAllBatchNorms m sh) = ''fold_all_batch_norms''"
| "call_name (NewQuantizationSimModel m qs d r ob pb ip) = ''QuantizationSimModel''"
| "call_name (ComputeEncodings q cb n) = ''compute_encodings''"
| "call_name (EqualizeModel m sh) = ''equalize_model''"
| "call_name (NewQuantParams wb ab r qs) = ''QuantParams''"
| "call_name (CorrectBias m p nq l nb) = ''correct_bias''"
| "call_name (TorchSave m p) = ''torch.save''"

definition names :: "('w, 'x) event list \<Rightarrow> string list" where
  "names tr = map (\<lambda>e. call_name (fst e)) tr"

text \<open>The calls of a log.\<close>

definition calls :: "('w, 'x) event list \<Rightarrow> call list" where
  "calls tr = map fst tr"

definition succeeded :: "('w, 'x) event \<Rightarrow> bool" where
  "succeeded e = (case snd (snd e) of Inl x \<Rightarrow> False | Inr v \<Rightarrow> True)"

text \<open>A log that ends in a library call raising \<open>x\<close>, every earlier call having returned.\<close>

definition failed_with :: "'x \<Rightarrow> ('w, 'x) event list \<Rightarrow> bool" where
  "failed_with x tr =
     (tr \<noteq> [] \<and> snd (snd (last tr)) = Inl x \<and> list_all succeeded (butlast tr))"

subsection \<open>What a call of the notebook looks like\<close>

text \<open>
  The arguments the notebook gives to its calls, in terms of the loaded model \<open>m0\<close>, the
  configuration \<open>cfg\<close> and \<^verbatim>\<open>os.path.join\<close>.
\<close>

definition ok_call :: "pyval \<Rightarrow> config \<Rightarrow> (string \<Rightarrow> string \<Rightarrow> string) \<Rightarrow> call \<Rightarrow> bool" where
  "ok_call m0 cfg jn c =
     (case c of
        OsMakedirs d e \<Rightarrow> d = logdir cfg \<and> e
      | Resnet18 p \<Rightarrow> p
      | ModuleTo m d \<Rightarrow> m = m0 \<and> d = TorchDevice ''cuda'' \<and> use_cuda cfg
      | ModuleEval m \<Rightarrow> m = m0
      | NewImageNetEvaluator d i b n \<Rightarrow> d = dataset_dir cfg
      | NewImageNetDataLoader t d i \<Rightarrow> d = dataset_dir cfg \<and> \<not> t
      | TensorTo t d \<Rightarrow> d = TorchDevice ''cuda'' \<and> use_cuda cfg
      | CopyDeepcopy m \<Rightarrow> m = m0
      | ComputeEncodings q cb n \<Rightarrow>
          cb = PartialEvaluate \<lparr>self_config = cfg\<rparr> (use_cuda cfg) \<and> n = 1
      | EqualizeModel m sh \<Rightarrow> m = m0
      | CorrectBias m p nq l nb \<Rightarrow> m = m0 \<and> nq = 1 \<and> nb = 1
      | TorchSave m p \<Rightarrow> m = m0 \<and> p = jn (logdir cfg) ''quantized_model.pth''
      | _ \<Rightarrow> True)"

text \<open>An entry of the log: its call is as above, and what \<^verbatim>\<open>resnet18\<close> returns is \<open>m0\<close>.\<close>

definition ok_event ::
  "pyval \<Rightarrow> config \<Rightarrow> (string \<Rightarrow> string \<Rightarrow> string) \<Rightarrow> ('w, 'x) event \<Rightarrow> bool" where
  "ok_event m0 cfg jn e =
     (ok_call m0 cfg jn (fst e) \<and>
      (case fst e of
         Resnet18 p \<Rightarrow> (case snd (snd e) of Inl x \<Rightarrow> True | Inr v \<Rightarrow> v = m0)
       | _ \<Rightarrow> True))"

subsection \<open>Specifications of statements\<close>

text \<open>
  \<open>steps m Q E\<close>: from every state, \<open>m\<close> only appends to the log; \<open>Q\<close> relates what it
  appends to the value it returns, \<open>E\<close> to the exception it ends with.
\<close>

definition steps ::
  "('a, 'w, 'x) prog \<Rightarrow> (('w, 'x) event list \<Rightarrow> 'a \<Rightarrow> bool)
     \<Rightarrow> (('w, 'x) event list \<Rightarrow> 'x exn \<Rightarrow> bool) \<Rightarrow> bool" where
  "steps m Q E =
     (\<forall>s. \<exists>seg. trace (snd (m s)) = trace s @ seg \<and>
                (case fst (m s) of Inl e \<Rightarrow> E seg e | Inr a \<Rightarrow> Q seg a))"

text \<open>
  How many calls a statement makes can depend on the library (on how often it invokes the
  callback), so a statement is given a set \<open>NS\<close> of lists of call names: the sequences of
  calls it can make when it returns. \<open>conc\<close> is for one statement after another.
\<close>

definition conc :: "string list set \<Rightarrow> string list set \<Rightarrow> string list set" where
  "conc A B = {a @ b |a b. a \<in> A \<and> b \<in> B}"

text \<open>
  What a run that returned has logged: calls whose names are one of the lists of \<open>NS\<close>,
  all well-formed and all answered.
\<close>

definition run_returned ::
  "pyval \<Rightarrow> config \<Rightarrow> (string \<Rightarrow> string \<Rightarrow> string) \<Rightarrow> string list set
     \<Rightarrow> ('w, 'x) event list \<Rightarrow> bool" where
  "run_returned m0 cfg jn NS seg =
     (list_all (ok_event m0 cfg jn) seg \<and> list_all succeeded seg \<and> names seg \<in> NS)"

text \<open>
  What a run that ended with an exception has logged: a prefix of one of the lists of
  \<open>NS\<close>, all calls well-formed; either the last call raised that exception, or every call
  was answered and the exception is the one of the \<^verbatim>\<open>use_cuda\<close> guard.
\<close>

definition run_raised ::
  "pyval \<Rightarrow> config \<Rightarrow> (string \<Rightarrow> string \<Rightarrow> string) \<Rightarrow> string list set
     \<Rightarrow> ('w, 'x) event list \<Rightarrow> 'x exn \<Rightarrow> bool" where
  "run_raised m0 cfg jn NS seg e =
     (list_all (ok_event m0 cfg jn) seg \<and> (\<exists>N\<in>NS. prefix (names seg) N) \<and>
      (case e of
         External x \<Rightarrow> failed_with x seg
       | Raised msg \<Rightarrow> list_all succeeded seg \<and> use_cuda cfg \<and>
           msg = ''use_cuda is True but cuda is unavailable''))"

definition cell_ok ::
  "pyval \<Rightarrow> config \<Rightarrow> (string \<Rightarrow> string \<Rightarrow> string) \<Rightarrow> string list set \<Rightarrow> ('a \<Rightarrow> bool)
     \<Rightarrow> ('a, 'w, 'x) prog \<Rightarrow> bool" where
  "cell_ok m0 cfg jn NS G m =
     steps m (\<lambda>seg a. run_returned m0 cfg jn NS seg \<and> G a) (run_raised m0 cfg jn NS)"

text \<open>The same, for statements that load the model: \<open>m0\<close> is what they loaded.\<close>

definition cell_ok_ex ::
  "config \<Rightarrow> (string \<Rightarrow> string \<Rightarrow> string) \<Rightarrow> string list set \<Rightarrow> (pyval \<Rightarrow> 'a \<Rightarrow> bool)
     \<Rightarrow> ('a, 'w, 'x) prog \<Rightarrow> bool" where
  "cell_ok_ex cfg jn NS G m =
     steps m (\<lambda>seg a. \<exists>m0. run_returned m0 cfg jn NS seg \<and> G m0 a)
             (\<lambda>seg e. \<exists>m0. run_raised m0 cfg jn NS seg e)"

text \<open>The facts about the globals that every cell after the model cell relies on.\<close>

definition settled :: "pyval \<Rightarrow> config \<Rightarrow> globals \<Rightarrow> bool" where
  "settled m0 cfg g =
     (model g = m0 \<and> config g = cfg \<and> data_pipeline g = \<lparr>self_config = cfg\<rparr> \<and>
      num_batches g = 1)"

subsection \<open>The calls of a run, by name\<close>

definition dummy_input_names :: "bool \<Rightarrow> string list" where
  "dummy_input_names uc = ''torch.rand'' # (if uc then [''tensor.to''] else [])"

definition evaluate_names :: "string list" where
  "evaluate_names = [''ImageNetEvaluator'', ''evaluator.evaluate'']"

text \<open>
  The calls made by \<open>k\<close> invocations of the callback: each one is a run of
  \<^verbatim>\<open>ImageNetDataPipeline.evaluate\<close>.
\<close>

definition callback_names :: "nat \<Rightarrow> string list" where
  "callback_names k = concat (replicate k evaluate_names)"

text \<open>
  A simulation cell in which the library invokes the callback \<open>k\<close> times:
  \<^verbatim>\<open>compute_encodings\<close> is answered after the calls of its callback.
\<close>

definition quantsim_names :: "bool \<Rightarrow> nat \<Rightarrow> string list" where
  "quantsim_names uc k =
     dummy_input_names uc @ [''QuantizationSimModel''] @ callback_names k
       @ [''compute_encodings'', ''.model''] @ evaluate_names @ [''print'']"

definition baseline_names :: "bool \<Rightarrow> nat \<Rightarrow> string list" where
  "baseline_names uc k =
     dummy_input_names uc @ [''copy.deepcopy'', ''fold_all_batch_norms'',
         ''QuantizationSimModel''] @ callback_names k
       @ [''compute_encodings'', ''.model''] @ evaluate_names @ [''print'']"

text \<open>The calls of the model cell.\<close>

definition model_names :: "bool \<Rightarrow> string list" where
  "model_names uc =
     [''resnet18''] @ (if uc then [''model.to''] else []) @ [''model.eval'']
       @ evaluate_names @ [''print'']"

text \<open>The calls of the cells after the model cell.\<close>

definition rest_names :: "bool \<Rightarrow> nat \<Rightarrow> nat \<Rightarrow> nat \<Rightarrow> string list" where
  "rest_names uc k1 k2 k3 =
     baseline_names uc k1 @ [''equalize_model''] @ quantsim_names uc k2 @
     [''ImageNetDataLoader'', ''.data_loader'', ''QuantParams'', ''correct_bias''] @
     quantsim_names uc k3 @ [''torch.save'']"

text \<open>
  The calls of a complete run, in order, when the library invokes the callback \<open>k1\<close>,
  \<open>k2\<close> and \<open>k3\<close> times in the three computations of encodings: configuration, model and
  floating-point accuracy; the simulation of a batch-norm folded copy; equalization and
  the simulation of the equalized model; bias correction and the simulation of the
  corrected model; the checkpoint.
\<close>

definition notebook_calls :: "bool \<Rightarrow> nat \<Rightarrow> nat \<Rightarrow> nat \<Rightarrow> string list" where
  "notebook_calls uc k1 k2 k3 =
     [''warnings.filterwarnings'', ''os.makedirs'']
     @ model_names uc
     @ baseline_names uc k1
     @ [''equalize_model'']
     @ quantsim_names uc k2
     @ [''ImageNetDataLoader'', ''.data_loader'', ''QuantParams'', ''correct_bias'']
     @ quantsim_names uc k3
     @ [''torch.save'']"

subsection \<open>The order of steps that the specification states\<close>

text \<open>
  The specification lists seven steps: (1) load a pretrained model, (2) evaluate its
  baseline floating-point accuracy, (3) construct a quantization-simulation wrapper,
  (4) compute encodings, (5) apply the equalization and bias-correction transforms,
  (6) re-run the simulation and evaluation, (7) persist the model. \<open>step_ranks\<close> gives
  each call its step: a simulation or an evaluation made after a transform is a re-run
  (step 6); an evaluation before any simulation is the baseline evaluation (step 2); an
  evaluation between the first simulation and the first transform belongs to the
  baseline simulation and is not listed again; calls that belong to none of the steps
  are left out. The first flag says that a simulation has been constructed, the second
  that a transform has been applied.
\<close>

fun step_ranks :: "bool \<Rightarrow> bool \<Rightarrow> call list \<Rightarrow> nat list" where
  "step_ranks sim tf [] = []"
| "step_ranks sim tf (Resnet18 p # cs) = 1 # step_ranks sim tf cs"
| "step_ranks sim tf (EvaluatorEvaluate e m i u # cs) =
     (if tf then [6] else if sim then [] else [2]) @ step_ranks sim tf cs"
| "step_ranks sim tf (NewQuantizationSimModel m qs d r ob pb ip # cs) =
     (if tf then 6 else 3) # step_ranks True tf cs"
| "step_ranks sim tf (ComputeEncodings q cb n # cs) =
     (if tf then 6 else 4) # step_ranks sim tf cs"
| "step_ranks sim tf (EqualizeModel m sh # cs) = 5 # step_ranks sim True cs"
| "step_ranks sim tf (CorrectBias m p nq l nb # cs) = 5 # step_ranks sim True cs"
| "step_ranks sim tf (TorchSave m p # cs) = 7 # step_ranks sim tf cs"
| "step_ranks sim tf (c # cs) = step_ranks sim tf cs"

text \<open>No step precedes one listed before it.\<close>

definition claimed_step_order :: "call list \<Rightarrow> bool" where
  "claimed_step_order cs = sorted (step_ranks False False cs)"

subsection \<open>Objects passed between calls\<close>

text \<open>In the log \<open>seg\<close>, the call \<open>c\<close> has returned \<open>v\<close>.\<close>

definition returned_by :: "('w, 'x) event list \<Rightarrow> call \<Rightarrow> pyval \<Rightarrow> bool" where
  "returned_by seg c v = list_ex (\<lambda>e. fst e = c \<and> snd (snd e) = Inr v) seg"



text \<open>What a statement has appended to the log.\<close>

definition appended :: "('w, 'x) state \<Rightarrow> ('w, 'x) state \<Rightarrow> ('w, 'x) event list" where
  "appended s s' = drop (length (trace s)) (trace s')"

subsection \<open>The log and the environment\<close>

text \<open>\<open>enters env w w'\<close>: the library gets from \<open>w\<close> to \<open>w'\<close> by starting calls with callbacks.\<close>

definition enters :: "('w, 'x) env \<Rightarrow> 'w \<Rightarrow> 'w \<Rightarrow> bool" where
  "enters env = rtranclp (\<lambda>w w'. \<exists>c. w' = snd (enter env c w))"

text \<open>
  \<open>follows env w tr w1\<close>: started in the world \<open>w\<close>, the log \<open>tr\<close> is what the environment
  answered, call after call, each call in the world that the calls before it left
  (changed at most by the library starting a call with a callback), and \<open>w1\<close> is the
  world at the end.
\<close>

fun follows :: "('w, 'x) env \<Rightarrow> 'w \<Rightarrow> ('w, 'x) event list \<Rightarrow> 'w \<Rightarrow> bool" where
  "follows env w [] w1 = enters env w w1"
| "follows env w (e # tr) w1 =
     (enters env w (fst (snd e)) \<and>
      snd (snd e) = fst (call_ext env (fst e) (fst (snd e))) \<and>
      follows env (snd (call_ext env (fst e) (fst (snd e)))) tr w1)"

definition replays :: "('w, 'x) env \<Rightarrow> ('a, 'w, 'x) prog \<Rightarrow> bool" where
  "replays env m =
     (\<forall>s. \<exists>seg. trace (snd (m s)) = trace s @ seg \<and>
                follows env (world s) seg (world (snd (m s))))"

subsection \<open>The flow of objects through a run\<close>

text \<open>
  What a reader of the log knows about the objects of the run: the object that
  \<^verbatim>\<open>resnet18\<close> returned (the notebook's \<^verbatim>\<open>model\<close>), the object that \<^verbatim>\<open>copy.deepcopy(model)\<close>
  returned, the simulation constructed last and what reading its \<^verbatim>\<open>.model\<close> returned;
  whether the encodings of that simulation are still to be computed (then the
  evaluations in the log are those of the callback); and whether a transform
  (\<^verbatim>\<open>equalize_model\<close> or \<^verbatim>\<open>correct_bias\<close>) has been called.
\<close>

record flow =
  loaded :: "pyval option"
  copied :: "pyval option"
  sim :: "pyval option"
  sim_model :: "pyval option"
  encoding :: bool
  transformed :: bool

definition flow_init :: flow where
  "flow_init = \<lparr>loaded = None, copied = None, sim = None, sim_model = None,
                encoding = False, transformed = False\<rparr>"

text \<open>What an entry of the log adds to this knowledge.\<close>

definition flow_next :: "flow \<Rightarrow> ('w, 'x) event \<Rightarrow> flow" where
  "flow_next f e =
     (case snd (snd e) of
        Inl x \<Rightarrow> f
      | Inr v \<Rightarrow>
          (case fst e of
             Resnet18 p \<Rightarrow> f\<lparr>loaded := Some v\<rparr>
           | CopyDeepcopy m \<Rightarrow> f\<lparr>copied := Some v\<rparr>
           | NewQuantizationSimModel m qs d r ob pb ip \<Rightarrow>
               f\<lparr>sim := Some v, sim_model := None, encoding := True\<rparr>
           | ComputeEncodings q cb n \<Rightarrow> f\<lparr>encoding := False\<rparr>
           | GetAttr q a \<Rightarrow> (if a = ''model'' then f\<lparr>sim_model := Some v\<rparr> else f)
           | EqualizeModel m sh \<Rightarrow> f\<lparr>transformed := True\<rparr>
           | CorrectBias m p nq l nb \<Rightarrow> f\<lparr>transformed := True\<rparr>
           | _ \<Rightarrow> f))"

text \<open>
  The objects a call of the notebook is given, in these terms. Every call on the name
  \<^verbatim>\<open>model\<close> is given the loaded object. Batch norms are folded into the copy. A simulation
  is constructed from the copy before the first transform and from the loaded object
  after it. Encodings are computed for, and \<^verbatim>\<open>.model\<close> is read from, the simulation
  constructed last. An evaluation that the notebook makes itself is given the loaded
  object as long as there is no simulation, and afterwards what reading \<^verbatim>\<open>.model\<close> of
  the last simulation returned; an evaluation made by the callback is given what the
  library chose.
\<close>

definition flow_call :: "flow \<Rightarrow> call \<Rightarrow> bool" where
  "flow_call f c =
     (case c of
        ModuleTo m d \<Rightarrow> loaded f = Some m
      | ModuleEval m \<Rightarrow> loaded f = Some m
      | CopyDeepcopy m \<Rightarrow> loaded f = Some m
      | EqualizeModel m sh \<Rightarrow> loaded f = Some m
      | CorrectBias m p nq l nb \<Rightarrow> loaded f = Some m
      | TorchSave m p \<Rightarrow> loaded f = Some m
      | FoldAllBatchNorms m sh \<Rightarrow> copied f = Some m \<and> \<not> transformed f
      | NewQuantizationSimModel m qs d r ob pb ip \<Rightarrow>
          (if transformed f then loaded f = Some m else copied f = Some m)
      | ComputeEncodings q cb n \<Rightarrow> sim f = Some q \<and> encoding f
      | GetAttr q a \<Rightarrow> a = ''model'' \<longrightarrow> sim f = Some q \<and> \<not> encoding f
      | EvaluatorEvaluate ev m i u \<Rightarrow>
          encoding f \<or> (if sim f = None then loaded f = Some m else sim_model f = Some m)
      | _ \<Rightarrow> True)"

fun flow_ok :: "flow \<Rightarrow> ('w, 'x) event list \<Rightarrow> bool" where
  "flow_ok f [] = True"
| "flow_ok f (e # es) = (flow_call f (fst e) \<and> flow_ok (flow_next f e) es)"

text \<open>The library calls of \<^verbatim>\<open>ImageNetDataPipeline.evaluate\<close>, as the callback makes them.\<close>

definition callback_events :: "('w, 'x) event list \<Rightarrow> bool" where
  "callback_events seg =
     list_all (\<lambda>e. case fst e of
                      NewImageNetEvaluator d i b n \<Rightarrow> True
                    | EvaluatorEvaluate ev m i u \<Rightarrow> True
                    | _ \<Rightarrow> False) seg"

subsection \<open>Changes of the model in place\<close>

text \<open>
  The calls that the notebook makes for their effect on a model object: it drops what
  they return and goes on with the object it passed (of \<^verbatim>\<open>equalize_model\<close> the source
  says: \<^verbatim>\<open># This API will equalize the model in-place\<close>). \<open>changes_in_place\<close> gives that
  object.
\<close>

definition changes_in_place :: "call \<Rightarrow> pyval option" where
  "changes_in_place c =
     (case c of
        ModuleTo m d \<Rightarrow> Some m
      | ModuleEval m \<Rightarrow> Some m
      | FoldAllBatchNorms m sh \<Rightarrow> Some m
      | EqualizeModel m sh \<Rightarrow> Some m
      | CorrectBias m p nq l nb \<Rightarrow> Some m
      | _ \<Rightarrow> None)"

text \<open>The calls of a log that change the loaded object in place, by name and in order.\<close>

fun loaded_changes :: "flow \<Rightarrow> ('w, 'x) event list \<Rightarrow> string list" where
  "loaded_changes f [] = []"
| "loaded_changes f (e # es) =
     (if changes_in_place (fst e) \<noteq> None \<and> changes_in_place (fst e) = loaded f
      then [call_name (fst e)] else [])
     @ loaded_changes (flow_next f e) es"

text \<open>Some \<^verbatim>\<open>copy.deepcopy\<close> of the log has returned the loaded object itself.\<close>

fun copy_aliases :: "flow \<Rightarrow> ('w, 'x) event list \<Rightarrow> bool" where
  "copy_aliases f [] = False"
| "copy_aliases f (e # es) =
     ((case fst e of
         CopyDeepcopy m \<Rightarrow> (case snd (snd e) of Inl x \<Rightarrow> False | Inr v \<Rightarrow> loaded f = Some v)
       | _ \<Rightarrow> False)
      \<or> copy_aliases (flow_next f e) es)"

definition expected_changes :: "bool \<Rightarrow> string list" where
  "expected_changes uc =
     (if uc then [''model.to''] else []) @ [''model.eval'', ''equalize_model'', ''correct_bias'']"

section \<open>Verification\<close>

lemmas toy_defs = toy_env_def toy_world_init_def toy_inc_def fresh_def
  committed_dataset_dir_def committed_use_cuda_def

lemmas run_defs = notebook_def notebook_cells_def state_init_def globals_init_def
  cell_imports_def cell_config_def cell_model_def cell_quant_params_def cell_quantsim_def
  cell_equalize_def cell_cle_quantsim_def cell_bc_params_def cell_bias_correction_def
  cell_bc_quantsim_def make_dummy_input_def use_cuda_guard_def
  ImageNetDataPipeline_evaluate_def ImageNetDataPipeline_data_loader_def
  ImageNetDataPipeline_init_def bnd_def ret_def raise_def ext_call_def
  torch_cuda_is_available_def datetime_now_strftime_def
  compute_encodings_def ext_call_with_callback_def callback_apply_def

subsection \<open>Rules for specifications of statements\<close>

lemma failed_with_single [simp]: "failed_with x [(c, w, Inl y)] = (y = x)"
  by (auto simp: failed_with_def)

lemma failed_with_append:
  "list_all succeeded seg1 \<Longrightarrow> failed_with x seg2 \<Longrightarrow> failed_with x (seg1 @ seg2)"
  by (auto simp: failed_with_def butlast_append)

lemma names_append [simp]: "names (xs @ ys) = names xs @ names ys"
  by (simp add: names_def)

lemma names_Nil [simp]: "names [] = []"
  by (simp add: names_def)

lemma names_single [simp]: "names [(c, w, r)] = [call_name c]"
  by (simp add: names_def)

lemma names_Cons [simp]: "names (e # es) = call_name (fst e) # names es"
  by (simp add: names_def)

lemma conc_single [simp]: "conc {a} {b} = {a @ b}"
  by (auto simp: conc_def)

lemma conc_empty_iff [simp]: "(conc A B = {}) = (A = {} \<or> B = {})"
  by (auto simp: conc_def)

lemma in_concI: "a \<in> A \<Longrightarrow> b \<in> B \<Longrightarrow> a @ b \<in> conc A B"
  by (auto simp: conc_def)

lemma stepsI:
  "(\<And>s. \<exists>seg. trace (snd (m s)) = trace s @ seg \<and>
                (case fst (m s) of Inl e \<Rightarrow> E seg e | Inr a \<Rightarrow> Q seg a)) \<Longrightarrow> steps m Q E"
  by (simp add: steps_def)

lemma stepsD:
  "steps m Q E \<Longrightarrow> \<exists>seg. trace (snd (m s)) = trace s @ seg \<and>
                (case fst (m s) of Inl e \<Rightarrow> E seg e | Inr a \<Rightarrow> Q seg a)"
  by (simp add: steps_def)

lemma steps_ret: "Q [] a \<Longrightarrow> steps (ret a) Q E"
  by (simp add: steps_def ret_def)

lemma steps_raise: "E [] (Raised msg) \<Longrightarrow> steps (raise msg) Q E"
  by (simp add: steps_def raise_def)

lemma steps_ext:
  "(\<And>w v. Q [(c, w, Inr v)] v) \<Longrightarrow> (\<And>w x. E [(c, w, Inl x)] (External x)) \<Longrightarrow>
   steps (ext_call env c) Q E"
  by (auto simp: steps_def ext_call_def split: prod.splits sum.splits)

lemma steps_bnd:
  assumes m: "steps m Q1 E1"
    and f: "\<And>a seg1. Q1 seg1 a \<Longrightarrow> steps (f a) (\<lambda>seg2. Q (seg1 @ seg2)) (\<lambda>seg2. E (seg1 @ seg2))"
    and e: "\<And>seg e. E1 seg e \<Longrightarrow> E seg e"
  shows "steps (bnd m f) Q E"
proof (rule stepsI)
  fix s
  obtain r s1 where ms: "m s = (r, s1)" by (cases "m s")
  from stepsD[OF m, of s] ms obtain seg1 where
    t1: "trace s1 = trace s @ seg1" and
    c1: "case r of Inl e \<Rightarrow> E1 seg1 e | Inr a \<Rightarrow> Q1 seg1 a" by auto
  show "\<exists>seg. trace (snd (bnd m f s)) = trace s @ seg \<and>
          (case fst (bnd m f s) of Inl e \<Rightarrow> E seg e | Inr a \<Rightarrow> Q seg a)"
  proof (cases r)
    case (Inl ex)
    with ms t1 c1 e show ?thesis by (auto simp: bnd_def)
  next
    case (Inr a)
    with c1 have "Q1 seg1 a" by simp
    from stepsD[OF f[OF this], of s1] obtain seg2 where
      t2: "trace (snd (f a s1)) = trace s1 @ seg2" and
      c2: "case fst (f a s1) of Inl e \<Rightarrow> E (seg1 @ seg2) e | Inr b \<Rightarrow> Q (seg1 @ seg2) b"
      by auto
    have "bnd m f s = f a s1" using ms Inr by (simp add: bnd_def)
    with t1 t2 c2 show ?thesis by auto
  qed
qed

lemma steps_weaken:
  "steps m Q E \<Longrightarrow> (\<And>seg a. Q seg a \<Longrightarrow> Q' seg a) \<Longrightarrow> (\<And>seg e. E seg e \<Longrightarrow> E' seg e) \<Longrightarrow>
   steps m Q' E'"
  unfolding steps_def
  apply (intro allI)
  subgoal for s
    apply (erule allE[of _ s])
    apply (cases "fst (m s)")
     apply auto
    done
  done

text \<open>A library call with a callback: the calls of the callback, then the call itself.\<close>

lemma steps_with_callback:
  assumes "\<And>us w0. us = fst (enter env c w0) \<Longrightarrow>
             steps (bnd (run_callbacks (env :: ('w, 'x) env) inc cb us)
                      (\<lambda>_. ext_call env c)) Q E"
  shows "steps (ext_call_with_callback env inc c cb) Q E"
proof (rule stepsI)
  fix s :: "('w, 'x) state"
  obtain us w1 where en: "enter env c (world s) = (us, w1)" by (cases "enter env c (world s)")
  then have "us = fst (enter env c (world s))" by simp
  from stepsD[OF assms[OF this], of "s\<lparr>world := w1\<rparr>"] en
  show "\<exists>seg. trace (snd (ext_call_with_callback env inc c cb s)) = trace s @ seg \<and>
          (case fst (ext_call_with_callback env inc c cb s) of
             Inl e \<Rightarrow> E seg e | Inr a \<Rightarrow> Q seg a)"
    by (simp add: ext_call_with_callback_def)
qed

lemma run_returned_Nil [simp]: "run_returned m0 cfg jn NS [] = ([] \<in> NS)"
  by (auto simp: run_returned_def)

lemma run_raised_Nil_Raised:
  "use_cuda cfg \<Longrightarrow> NS \<noteq> {} \<Longrightarrow>
   run_raised m0 cfg jn NS [] (Raised ''use_cuda is True but cuda is unavailable'')"
  by (auto simp: run_raised_def)

lemma run_returned_append:
  "run_returned m0 cfg jn NS1 seg1 \<Longrightarrow> run_returned m0 cfg jn NS2 seg2 \<Longrightarrow>
   run_returned m0 cfg jn (conc NS1 NS2) (seg1 @ seg2)"
  by (simp add: run_returned_def in_concI)

lemma run_raised_append:
  assumes "run_returned m0 cfg jn NS1 seg1" and "run_raised m0 cfg jn NS2 seg2 e"
  shows "run_raised m0 cfg jn (conc NS1 NS2) (seg1 @ seg2) e"
proof -
  from assms(2) obtain N where N: "N \<in> NS2" "prefix (names seg2) N"
    by (auto simp: run_raised_def)
  from assms(1) have n1: "names seg1 \<in> NS1" by (simp add: run_returned_def)
  have "names seg1 @ N \<in> conc NS1 NS2" using n1 N(1) by (rule in_concI)
  moreover have "prefix (names (seg1 @ seg2)) (names seg1 @ N)" using N(2) by simp
  ultimately have "\<exists>N\<in>conc NS1 NS2. prefix (names (seg1 @ seg2)) N" by blast
  with assms show ?thesis
    by (auto simp: run_returned_def run_raised_def failed_with_append split: exn.splits)
qed

lemma run_raised_extend:
  assumes "run_raised m0 cfg jn NS1 seg e" and "NS2 \<noteq> {}"
  shows "run_raised m0 cfg jn (conc NS1 NS2) seg e"
proof -
  from assms(1) obtain N where N: "N \<in> NS1" "prefix (names seg) N"
    by (auto simp: run_raised_def)
  from assms(2) obtain M where M: "M \<in> NS2" by auto
  have "N @ M \<in> conc NS1 NS2" using N(1) M by (rule in_concI)
  moreover have "prefix (names seg) (N @ M)" using N(2) by (rule prefix_prefix)
  ultimately have "\<exists>N\<in>conc NS1 NS2. prefix (names seg) N" by blast
  with assms(1) show ?thesis by (simp add: run_raised_def)
qed

lemma run_returned_mono:
  "run_returned m0 cfg jn NS seg \<Longrightarrow> NS \<subseteq> NS' \<Longrightarrow> run_returned m0 cfg jn NS' seg"
  by (auto simp: run_returned_def)

lemma run_raised_mono:
  "run_raised m0 cfg jn NS seg e \<Longrightarrow> NS \<subseteq> NS' \<Longrightarrow> run_raised m0 cfg jn NS' seg e"
  by (auto simp: run_raised_def)

lemma cell_ok_mono:
  assumes "cell_ok m0 cfg jn NS G m" and "NS \<subseteq> NS'"
  shows "cell_ok m0 cfg jn NS' G m"
  unfolding cell_ok_def
  by (rule steps_weaken[OF assms(1)[unfolded cell_ok_def]])
     (simp_all add: run_returned_mono[OF _ assms(2)] run_raised_mono[OF _ assms(2)])

lemma cell_ok_nonempty:
  assumes "cell_ok m0 cfg jn NS G (m :: ('a, 'w, 'x) prog)"
  shows "NS \<noteq> {}"
proof -
  obtain s :: "('w, 'x) state" where True by simp
  from stepsD[OF assms[unfolded cell_ok_def], of s] show ?thesis
    by (cases "fst (m s)") (auto simp: run_returned_def run_raised_def)
qed

lemma cell_ok_ret: "G a \<Longrightarrow> cell_ok m0 cfg jn {[]} G (ret a)"
  by (simp add: cell_ok_def steps_ret)

lemma cell_ok_raise:
  "use_cuda cfg \<Longrightarrow> NS \<noteq> {} \<Longrightarrow>
   cell_ok m0 cfg jn NS G (raise ''use_cuda is True but cuda is unavailable'')"
  by (simp add: cell_ok_def steps_raise run_raised_Nil_Raised)

lemma ok_event_plain:
  "ok_call m0 cfg jn c \<Longrightarrow> call_name c \<noteq> ''resnet18'' \<Longrightarrow> ok_event m0 cfg jn (c, w, r)"
  by (cases c) (simp_all add: ok_event_def)

lemma cell_ok_ext:
  "ok_call m0 cfg jn c \<Longrightarrow> call_name c \<noteq> ''resnet18'' \<Longrightarrow> n = call_name c \<Longrightarrow>
   cell_ok m0 cfg jn {[n]} (\<lambda>v. True) (ext_call env c)"
  unfolding cell_ok_def
  by (rule steps_ext) (simp_all add: run_returned_def run_raised_def ok_event_plain succeeded_def)

lemma cell_ok_bnd:
  assumes m: "cell_ok m0 cfg jn NS1 G1 m"
    and f: "\<And>a. G1 a \<Longrightarrow> cell_ok m0 cfg jn NS2 G2 (f a)"
    and ne: "NS2 \<noteq> {}"
  shows "cell_ok m0 cfg jn (conc NS1 NS2) G2 (bnd m f)"
  unfolding cell_ok_def
proof (rule steps_bnd[OF m[unfolded cell_ok_def]], goal_cases)
  case (1 a seg1)
  then have g: "G1 a" and r: "run_returned m0 cfg jn NS1 seg1" by simp_all
  show ?case
    by (rule steps_weaken[OF f[OF g, unfolded cell_ok_def]])
       (simp_all add: run_returned_append[OF r] run_raised_append[OF r])
next
  case (2 seg e)
  then show ?case using ne by (rule run_raised_extend)
qed

lemma cell_ok_ex_bnd:
  assumes m: "cell_ok_ex cfg jn NS1 G1 m"
    and f: "\<And>m0 a. G1 m0 a \<Longrightarrow> cell_ok m0 cfg jn NS2 (G2 m0) (f a)"
    and ne: "NS2 \<noteq> {}"
  shows "cell_ok_ex cfg jn (conc NS1 NS2) G2 (bnd m f)"
  unfolding cell_ok_ex_def
proof (rule steps_bnd[OF m[unfolded cell_ok_ex_def]], goal_cases)
  case (1 a seg1)
  then obtain m0 where g: "G1 m0 a" and r: "run_returned m0 cfg jn NS1 seg1" by auto
  show ?case
    by (rule steps_weaken[OF f[OF g, unfolded cell_ok_def]])
       (auto intro: run_returned_append[OF r] run_raised_append[OF r])
next
  case (2 seg e)
  then show ?case using ne by (auto intro: run_raised_extend)
qed

lemma cell_ok_ex_resnet:
  assumes f: "\<And>v. cell_ok v cfg jn NS (G v) (f v)"
  shows "cell_ok_ex cfg jn (conc {[''resnet18'']} NS) G (bnd (ext_call env (Resnet18 True)) f)"
  unfolding cell_ok_ex_def
proof (rule steps_bnd[where
      ?Q1.0 = "\<lambda>seg v. \<exists>w. seg = [(Resnet18 True, w, Inr v)]" and
      ?E1.0 = "\<lambda>seg e. \<exists>w x. seg = [(Resnet18 True, w, Inl x)] \<and> e = External x"], goal_cases)
  case 1
  show ?case by (rule steps_ext) simp_all
next
  case (2 v seg1)
  then obtain w where s: "seg1 = [(Resnet18 True, w, Inr v)]" by auto
  have r: "run_returned v cfg jn {[''resnet18'']} seg1"
    by (simp add: s run_returned_def ok_event_def ok_call_def succeeded_def)
  show ?case
    apply (rule steps_weaken[OF f[of v, unfolded cell_ok_def]])
    subgoal for seg a using run_returned_append[OF r, of NS seg] by auto
    subgoal for seg e using run_raised_append[OF r, of NS seg e] by auto
    done
next
  case (3 seg e)
  then obtain w x where s: "seg = [(Resnet18 True, w, Inl x)]" and e: "e = External x" by auto
  from cell_ok_nonempty[OF f] obtain N where N: "N \<in> NS" by auto
  have "''resnet18'' # N \<in> conc {[''resnet18'']} NS"
    using in_concI[of "[''resnet18'']" "{[''resnet18'']}" N NS] N by simp
  then have "\<exists>M\<in>conc {[''resnet18'']} NS. prefix (names seg) M"
    by (rule bexI[rotated]) (simp add: s)
  then have "run_raised PyNone cfg jn (conc {[''resnet18'']} NS) seg e"
    by (simp add: run_raised_def s e ok_event_def ok_call_def)
  then show ?case by blast
qed

lemma cell_ok_ext_bnd:
  assumes "ok_call m0 cfg jn c \<and> call_name c \<noteq> ''resnet18'' \<and> n = call_name c"
    and "\<And>v. cell_ok m0 cfg jn NS G (f v)"
  shows "cell_ok m0 cfg jn (conc {[n]} NS) G (bnd (ext_call env c) f)"
proof (rule cell_ok_bnd[where ?G1.0 = "\<lambda>v. True"])
  show "cell_ok m0 cfg jn {[n]} (\<lambda>v. True) (ext_call env c)"
    using assms(1) by (simp add: cell_ok_ext)
  show "cell_ok m0 cfg jn NS G (f a)" for a by (rule assms(2))
  show "NS \<noteq> {}" by (rule cell_ok_nonempty[OF assms(2)])
qed

lemma cell_ok_ext_last:
  assumes "ok_call m0 cfg jn c \<and> call_name c \<noteq> ''resnet18'' \<and> n = call_name c"
  shows "cell_ok m0 cfg jn {[n]} (\<lambda>v. True) (ext_call env c)"
  using cell_ok_ext assms by blast

lemma cell_ok_cuda_bnd:
  assumes "\<And>b. cell_ok m0 cfg jn NS G (f b)"
  shows "cell_ok m0 cfg jn NS G (bnd (torch_cuda_is_available env) f)"
  using assms by (simp add: cell_ok_def steps_def bnd_def torch_cuda_is_available_def)

lemma cell_ok_guard:
  "model g = m0 \<and> config g = cfg \<Longrightarrow>
   cell_ok m0 cfg jn {if use_cuda cfg then [''model.to''] else []} (\<lambda>u. True)
     (use_cuda_guard env g)"
  unfolding use_cuda_guard_def
  apply (cases "use_cuda cfg")
   apply simp_all
   apply (rule cell_ok_cuda_bnd)
  subgoal for b
    apply (cases b)
     apply simp_all
     apply (rule cell_ok_mono[where NS = "conc {[''model.to'']} {[]}"])
      apply (rule cell_ok_ext_bnd, simp add: ok_call_def)
      apply (rule cell_ok_ret, simp)
     apply simp
    apply (rule cell_ok_raise, simp, simp)
    done
  apply (rule cell_ok_ret, simp)
  done

lemma cell_ok_evaluate:
  "dataset_dir (self_config p) = dataset_dir cfg \<Longrightarrow>
   cell_ok m0 cfg jn {evaluate_names} (\<lambda>v. True)
     (ImageNetDataPipeline_evaluate env inc p m its u)"
  unfolding ImageNetDataPipeline_evaluate_def
  apply (rule cell_ok_mono[where NS = "conc {[''ImageNetEvaluator'']} {[''evaluator.evaluate'']}"])
   apply (rule cell_ok_ext_bnd, simp add: ok_call_def)
   apply (rule cell_ok_ext_last, simp add: ok_call_def)
  apply (simp add: evaluate_names_def)
  done

lemma cell_ok_evaluate_bnd:
  assumes "dataset_dir (self_config p) = dataset_dir cfg"
    and "\<And>v. cell_ok m0 cfg jn NS G (f v)"
  shows "cell_ok m0 cfg jn (conc {evaluate_names} NS) G
           (bnd (ImageNetDataPipeline_evaluate env inc p m its u) f)"
proof (rule cell_ok_bnd[where ?G1.0 = "\<lambda>v. True"])
  show "cell_ok m0 cfg jn {evaluate_names} (\<lambda>v. True)
          (ImageNetDataPipeline_evaluate env inc p m its u)"
    by (rule cell_ok_evaluate[OF assms(1)])
  show "cell_ok m0 cfg jn NS G (f a)" for a by (rule assms(2))
  show "NS \<noteq> {}" by (rule cell_ok_nonempty[OF assms(2)])
qed

lemma cell_ok_data_loader_bnd:
  assumes "dataset_dir (self_config p) = dataset_dir cfg"
    and "\<And>v. cell_ok m0 cfg jn NS G (f v)"
  shows "cell_ok m0 cfg jn (conc {[''ImageNetDataLoader'', ''.data_loader'']} NS) G
           (bnd (ImageNetDataPipeline_data_loader env inc p) f)"
proof (rule cell_ok_bnd[where ?G1.0 = "\<lambda>v. True"])
  show "cell_ok m0 cfg jn {[''ImageNetDataLoader'', ''.data_loader'']} (\<lambda>v. True)
          (ImageNetDataPipeline_data_loader env inc p)"
    unfolding ImageNetDataPipeline_data_loader_def
    apply (rule cell_ok_mono[where NS = "conc {[''ImageNetDataLoader'']} {[''.data_loader'']}"])
     apply (rule cell_ok_ext_bnd, simp add: ok_call_def assms(1))
     apply (rule cell_ok_ext_last, simp add: ok_call_def)
    apply simp
    done
  show "cell_ok m0 cfg jn NS G (f a)" for a by (rule assms(2))
  show "NS \<noteq> {}" by (rule cell_ok_nonempty[OF assms(2)])
qed

text \<open>The invocations of the callback, and the library call around them.\<close>

lemma callback_names_Suc: "callback_names (Suc k) = evaluate_names @ callback_names k"
  by (simp add: callback_names_def)

lemma cell_ok_callbacks:
  assumes "dataset_dir (self_config p) = dataset_dir cfg"
  shows "cell_ok m0 cfg jn {callback_names (length us)} (\<lambda>u. True)
           (run_callbacks env inc (PartialEvaluate p uc) us)"
proof (induction us)
  case Nil
  show ?case using cell_ok_ret[of "\<lambda>u. True" "()" m0 cfg jn] by (simp add: callback_names_def)
next
  case (Cons u us)
  have "cell_ok m0 cfg jn (conc {evaluate_names} {callback_names (length us)}) (\<lambda>u. True)
          (bnd (ImageNetDataPipeline_evaluate env inc p (fst u) (snd u) uc)
             (\<lambda>_. run_callbacks env inc (PartialEvaluate p uc) us))"
    by (rule cell_ok_evaluate_bnd[OF assms]) (rule Cons.IH)
  then show ?case by (simp add: callback_apply_def callback_names_Suc)
qed

lemma cell_ok_with_callback:
  assumes ok: "ok_call m0 cfg jn c \<and> call_name c \<noteq> ''resnet18'' \<and> n = call_name c"
    and d: "dataset_dir (self_config p) = dataset_dir cfg"
  shows "cell_ok m0 cfg jn (conc (range callback_names) {[n]}) (\<lambda>v. True)
           (ext_call_with_callback env inc c (PartialEvaluate p uc))"
  unfolding cell_ok_def
proof (rule steps_with_callback)
  fix us :: "(pyval \<times> int option) list"
  have "cell_ok m0 cfg jn (conc {callback_names (length us)} {[n]}) (\<lambda>v. True)
          (bnd (run_callbacks env inc (PartialEvaluate p uc) us) (\<lambda>_. ext_call env c))"
    by (rule cell_ok_bnd[OF cell_ok_callbacks[OF d]]) (use ok in \<open>simp_all add: cell_ok_ext\<close>)
  then have "cell_ok m0 cfg jn (conc (range callback_names) {[n]}) (\<lambda>v. True)
          (bnd (run_callbacks env inc (PartialEvaluate p uc) us) (\<lambda>_. ext_call env c))"
    by (rule cell_ok_mono) (auto simp: conc_def)
  then show "steps (bnd (run_callbacks env inc (PartialEvaluate p uc) us) (\<lambda>_. ext_call env c))
           (\<lambda>seg a. run_returned m0 cfg jn (conc (range callback_names) {[n]}) seg \<and> True)
           (run_raised m0 cfg jn (conc (range callback_names) {[n]}))"
    by (simp add: cell_ok_def)
qed

lemma cell_ok_compute_encodings_bnd:
  assumes "cb = PartialEvaluate \<lparr>self_config = cfg\<rparr> (use_cuda cfg) \<and> n = 1"
    and "\<And>v. cell_ok m0 cfg jn NS G (f v)"
  shows "cell_ok m0 cfg jn (conc (conc (range callback_names) {[''compute_encodings'']}) NS) G
           (bnd (compute_encodings env inc q cb n) f)"
proof (rule cell_ok_bnd[where ?G1.0 = "\<lambda>v. True"])
  show "cell_ok m0 cfg jn (conc (range callback_names) {[''compute_encodings'']}) (\<lambda>v. True)
          (compute_encodings env inc q cb n)"
    unfolding compute_encodings_def using assms(1)
    by (simp add: cell_ok_with_callback ok_call_def)
  show "cell_ok m0 cfg jn NS G (f a)" for a by (rule assms(2))
  show "NS \<noteq> {}" by (rule cell_ok_nonempty[OF assms(2)])
qed

lemmas side = ok_call_def settled_def

subsection \<open>The cells\<close>

lemma cell_ok_make_dummy_input:
  "settled m0 cfg g \<Longrightarrow>
   cell_ok m0 cfg jn {dummy_input_names (use_cuda cfg)} (settled m0 cfg)
     (make_dummy_input env g)"
  unfolding make_dummy_input_def Let_def
  apply (cases "use_cuda cfg")
   apply (simp_all add: dummy_input_names_def)
   apply (simp add: settled_def[of m0 cfg g])
   apply (rule cell_ok_mono[where NS = "conc {[''torch.rand'']} (conc {[''tensor.to'']} {[]})"])
    apply (rule cell_ok_ext_bnd, simp add: side)
    apply (rule cell_ok_ext_bnd, simp add: side)
    apply (rule cell_ok_ret, simp add: side)
   apply simp
  apply (simp add: settled_def[of m0 cfg g])
  apply (rule cell_ok_mono[where NS = "conc {[''torch.rand'']} {[]}"])
   apply (rule cell_ok_ext_bnd, simp add: side)
   apply (rule cell_ok_ret, simp add: side)
  apply simp
  done

lemma cell_ok_make_dummy_input_bnd:
  assumes "settled m0 cfg g" and "\<And>g'. settled m0 cfg g' \<Longrightarrow> cell_ok m0 cfg jn NS G (f g')"
  shows "cell_ok m0 cfg jn (conc {dummy_input_names (use_cuda cfg)} NS) G
           (bnd (make_dummy_input env g) f)"
proof (rule cell_ok_bnd[OF cell_ok_make_dummy_input[OF assms(1)]])
  show "cell_ok m0 cfg jn NS G (f a)" if "settled m0 cfg a" for a by (rule assms(2)[OF that])
  show "NS \<noteq> {}" by (rule cell_ok_nonempty[OF assms(2)[OF assms(1)]])
qed

lemma cell_ok_quant_params:
  "model g = m0 \<and> config g = cfg \<and> data_pipeline g = \<lparr>self_config = cfg\<rparr> \<Longrightarrow>
   cell_ok m0 cfg jn {[]} (settled m0 cfg) (cell_quant_params g)"
  unfolding cell_quant_params_def Let_def
  by (rule cell_ok_ret) (simp add: settled_def)

lemma cell_ok_quantsim:
  "settled m0 cfg g \<Longrightarrow>
   cell_ok m0 cfg jn (range (baseline_names (use_cuda cfg))) (settled m0 cfg)
     (cell_quantsim env inc g)"
  unfolding cell_quantsim_def Let_def
  apply (rule cell_ok_mono[where NS = "conc {dummy_input_names (use_cuda cfg)}
      (conc {[''copy.deepcopy'']} (conc {[''fold_all_batch_norms'']}
      (conc {[''QuantizationSimModel'']}
      (conc (conc (range callback_names) {[''compute_encodings'']})
      (conc {[''.model'']} (conc {evaluate_names} (conc {[''print'']} {[]})))))))"])
   apply (rule cell_ok_make_dummy_input_bnd, assumption)
   apply (rule cell_ok_ext_bnd, simp add: side)
   apply (rule cell_ok_ext_bnd, simp add: side)
   apply (rule cell_ok_ext_bnd, simp add: side)
   apply (rule cell_ok_compute_encodings_bnd, simp add: side)
   apply (rule cell_ok_ext_bnd, simp add: side)
   apply (rule cell_ok_evaluate_bnd, simp add: side)
   apply (rule cell_ok_ext_bnd, simp add: side)
   apply (rule cell_ok_ret, simp add: side)
  apply (auto simp: conc_def baseline_names_def)
  done

lemma cell_ok_equalize:
  "settled m0 cfg g \<Longrightarrow>
   cell_ok m0 cfg jn {[''equalize_model'']} (settled m0 cfg) (cell_equalize env g)"
  unfolding cell_equalize_def
  apply (rule cell_ok_mono[where NS = "conc {[''equalize_model'']} {[]}"])
   apply (rule cell_ok_ext_bnd, simp add: side)
   apply (rule cell_ok_ret, simp add: side)
  apply simp
  done

lemma cell_ok_cle_quantsim:
  "settled m0 cfg g \<Longrightarrow>
   cell_ok m0 cfg jn (range (quantsim_names (use_cuda cfg))) (settled m0 cfg)
     (cell_cle_quantsim env inc g)"
  unfolding cell_cle_quantsim_def Let_def
  apply (rule cell_ok_mono[where NS = "conc {dummy_input_names (use_cuda cfg)}
      (conc {[''QuantizationSimModel'']}
      (conc (conc (range callback_names) {[''compute_encodings'']})
      (conc {[''.model'']} (conc {evaluate_names} (conc {[''print'']} {[]})))))"])
   apply (rule cell_ok_make_dummy_input_bnd, assumption)
   apply (rule cell_ok_ext_bnd, simp add: side)
   apply (rule cell_ok_compute_encodings_bnd, simp add: side)
   apply (rule cell_ok_ext_bnd, simp add: side)
   apply (rule cell_ok_evaluate_bnd, simp add: side)
   apply (rule cell_ok_ext_bnd, simp add: side)
   apply (rule cell_ok_ret, simp add: side)
  apply (auto simp: conc_def quantsim_names_def)
  done

lemma cell_ok_bc_params:
  "settled m0 cfg g \<Longrightarrow>
   cell_ok m0 cfg jn {[]}
     (\<lambda>g'. settled m0 cfg g' \<and> num_quant_samples g' = 1 \<and> num_bias_correct_samples g' = 1)
     (cell_bc_params g)"
  unfolding cell_bc_params_def Let_def
  by (rule cell_ok_ret) (simp add: settled_def)

lemma cell_ok_bias_correction:
  "settled m0 cfg g \<and> num_quant_samples g = 1 \<and> num_bias_correct_samples g = 1 \<Longrightarrow>
   cell_ok m0 cfg jn
     {[''ImageNetDataLoader'', ''.data_loader'', ''QuantParams'', ''correct_bias'']}
     (settled m0 cfg) (cell_bias_correction env inc g)"
  unfolding cell_bias_correction_def Let_def
  apply (rule cell_ok_mono[where NS = "conc {[''ImageNetDataLoader'', ''.data_loader'']}
      (conc {[''QuantParams'']} (conc {[''correct_bias'']} {[]}))"])
   apply (rule cell_ok_data_loader_bnd, simp add: side)
   apply (rule cell_ok_ext_bnd, simp add: side)
   apply (rule cell_ok_ext_bnd, simp add: side)
   apply (rule cell_ok_ret, simp add: side)
  apply simp
  done

lemma cell_ok_bc_quantsim:
  "settled m0 cfg g \<Longrightarrow> jn = os_path_join env \<Longrightarrow>
   cell_ok m0 cfg jn (range (\<lambda>k. quantsim_names (use_cuda cfg) k @ [''torch.save'']))
     (settled m0 cfg) (cell_bc_quantsim env inc g)"
  unfolding cell_bc_quantsim_def Let_def
  apply (rule cell_ok_mono[where NS = "conc {dummy_input_names (use_cuda cfg)}
      (conc {[''QuantizationSimModel'']}
      (conc (conc (range callback_names) {[''compute_encodings'']})
      (conc {[''.model'']} (conc {evaluate_names} (conc {[''print'']}
      (conc {[''torch.save'']} {[]}))))))"])
   apply (rule cell_ok_make_dummy_input_bnd, assumption)
   apply (rule cell_ok_ext_bnd, simp add: side)
   apply (rule cell_ok_compute_encodings_bnd, simp add: side)
   apply (rule cell_ok_ext_bnd, simp add: side)
   apply (rule cell_ok_evaluate_bnd, simp add: side)
   apply (rule cell_ok_ext_bnd, simp add: side)
   apply (rule cell_ok_ext_bnd, simp add: side)
   apply (rule cell_ok_ret, simp add: side)
  apply (auto simp: conc_def quantsim_names_def)
  done

lemma cell_ok_ex_model:
  "config g = cfg \<Longrightarrow>
   cell_ok_ex cfg jn {model_names (use_cuda cfg)}
     (\<lambda>m0 g'. model g' = m0 \<and> config g' = cfg \<and> data_pipeline g' = \<lparr>self_config = cfg\<rparr>)
     (cell_model env inc g)"
proof -
  assume g: "config g = cfg"
  have "cell_ok_ex cfg jn
     (conc {[''resnet18'']} (conc {if use_cuda cfg then [''model.to''] else []}
        (conc {[''model.eval'']} (conc {evaluate_names} (conc {[''print'']} {[]})))))
     (\<lambda>m0 g'. model g' = m0 \<and> config g' = cfg \<and> data_pipeline g' = \<lparr>self_config = cfg\<rparr>)
     (cell_model env inc g)"
    unfolding cell_model_def Let_def ImageNetDataPipeline_init_def
    apply (rule cell_ok_ex_resnet)
    apply (rule cell_ok_bnd)
      apply (rule cell_ok_guard, simp add: g)
     apply (rule cell_ok_ext_bnd, simp add: side)
     apply (rule cell_ok_evaluate_bnd, simp add: side g)
     apply (rule cell_ok_ext_bnd, simp add: side)
     apply (rule cell_ok_ret, simp add: side g)
    apply simp
    done
  moreover have "conc {[''resnet18'']} (conc {if use_cuda cfg then [''model.to''] else []}
        (conc {[''model.eval'']} (conc {evaluate_names} (conc {[''print'']} {[]}))))
      = {model_names (use_cuda cfg)}"
    by (simp add: model_names_def)
  ultimately show ?thesis by simp
qed

subsection \<open>Every run of the notebook\<close>

lemma cell_ok_rest:
  assumes g: "model g = m0 \<and> config g = cfg \<and> data_pipeline g = \<lparr>self_config = cfg\<rparr>"
    and jn: "jn = os_path_join env"
  shows "cell_ok m0 cfg jn {N. \<exists>k1 k2 k3. N = rest_names (use_cuda cfg) k1 k2 k3}
     (settled m0 cfg)
     (bnd (cell_quant_params g) (\<lambda>g.
      bnd (cell_quantsim env inc g) (\<lambda>g.
      bnd (cell_equalize env g) (\<lambda>g.
      bnd (cell_cle_quantsim env inc g) (\<lambda>g.
      bnd (cell_bc_params g) (\<lambda>g.
      bnd (cell_bias_correction env inc g) (\<lambda>g.
      cell_bc_quantsim env inc g)))))))"
  apply (rule cell_ok_mono[where NS = "conc {[]}
      (conc (range (baseline_names (use_cuda cfg))) (conc {[''equalize_model'']}
      (conc (range (quantsim_names (use_cuda cfg))) (conc {[]}
      (conc {[''ImageNetDataLoader'', ''.data_loader'', ''QuantParams'', ''correct_bias'']}
      (range (\<lambda>k. quantsim_names (use_cuda cfg) k @ [''torch.save''])))))))"])
   apply (rule cell_ok_bnd[OF cell_ok_quant_params[OF g]])
    apply (rule cell_ok_bnd[OF cell_ok_quantsim], assumption)
     apply (rule cell_ok_bnd[OF cell_ok_equalize], assumption)
      apply (rule cell_ok_bnd[OF cell_ok_cle_quantsim], assumption)
       apply (rule cell_ok_bnd[OF cell_ok_bc_params], assumption)
        apply (rule cell_ok_bnd[OF cell_ok_bias_correction], assumption)
         apply (rule cell_ok_bc_quantsim[OF _ jn], assumption)
        apply simp
       apply simp
      apply simp
     apply simp
    apply simp
   apply simp
  apply (auto simp: conc_def rest_names_def)
  done

lemma cell_ok_ex_from_model:
  assumes g: "config g = cfg" and jn: "jn = os_path_join env"
  shows "cell_ok_ex cfg jn
     (conc {model_names (use_cuda cfg)} {N. \<exists>k1 k2 k3. N = rest_names (use_cuda cfg) k1 k2 k3})
     (\<lambda>m0. settled m0 cfg)
     (bnd (cell_model env inc g) (\<lambda>g.
      bnd (cell_quant_params g) (\<lambda>g.
      bnd (cell_quantsim env inc g) (\<lambda>g.
      bnd (cell_equalize env g) (\<lambda>g.
      bnd (cell_cle_quantsim env inc g) (\<lambda>g.
      bnd (cell_bc_params g) (\<lambda>g.
      bnd (cell_bias_correction env inc g) (\<lambda>g.
      cell_bc_quantsim env inc g))))))))"
  apply (rule cell_ok_ex_bnd[OF cell_ok_ex_model[OF g]])
   apply (rule cell_ok_rest[OF _ jn], assumption)
  apply auto
  done

lemma notebook_calls_split:
  "conc {[''warnings.filterwarnings'', ''os.makedirs'']}
     (conc {model_names uc} {N. \<exists>k1 k2 k3. N = rest_names uc k1 k2 k3})
   \<subseteq> {N. \<exists>k1 k2 k3. N = notebook_calls uc k1 k2 k3}"
  by (auto simp: conc_def notebook_calls_def rest_names_def)

lemma steps_imports:
  "steps (cell_imports env g)
     (\<lambda>seg a. a = g \<and> (\<exists>w v. seg = [(FilterWarnings ''ignore'' ''.*param.*'', w, Inr v)]))
     (\<lambda>seg e. \<exists>w x. seg = [(FilterWarnings ''ignore'' ''.*param.*'', w, Inl x)] \<and> e = External x)"
  by (auto simp: steps_def cell_imports_def bnd_def ext_call_def ret_def
           split: prod.splits sum.splits)

lemma steps_config:
  "steps (cell_config env dir uc g)
     (\<lambda>seg a. \<exists>ld w v. seg = [(OsMakedirs ld True, w, Inr v)] \<and>
        a = g\<lparr>config := \<lparr>dataset_dir = dir, use_cuda = uc, logdir = ld\<rparr>\<rparr>)
     (\<lambda>seg e. \<exists>ld w x. seg = [(OsMakedirs ld True, w, Inl x)] \<and> e = External x)"
  by (auto simp: steps_def cell_config_def bnd_def ext_call_def ret_def Let_def
        datetime_now_strftime_def split: prod.splits sum.splits)

lemma notebook_calls_prefix2:
  "prefix [''warnings.filterwarnings'', ''os.makedirs''] (notebook_calls uc k1 k2 k3)"
  by (simp add: notebook_calls_def)

lemma notebook_steps:
  "steps (notebook_cells env inc dir uc)
     (\<lambda>seg g'. \<exists>ld m0.
        run_returned m0 \<lparr>dataset_dir = dir, use_cuda = uc, logdir = ld\<rparr> (os_path_join env)
          {N. \<exists>k1 k2 k3. N = notebook_calls uc k1 k2 k3} seg \<and>
        settled m0 \<lparr>dataset_dir = dir, use_cuda = uc, logdir = ld\<rparr> g')
     (\<lambda>seg e. \<exists>ld m0.
        run_raised m0 \<lparr>dataset_dir = dir, use_cuda = uc, logdir = ld\<rparr> (os_path_join env)
          {N. \<exists>k1 k2 k3. N = notebook_calls uc k1 k2 k3} seg e)"
  unfolding notebook_cells_def
proof (rule steps_bnd[OF steps_imports], goal_cases)
  case (1 a seg1)
  then obtain w1 v1 where s1: "seg1 = [(FilterWarnings ''ignore'' ''.*param.*'', w1, Inr v1)]"
    by auto
  show ?case
  proof (rule steps_bnd[OF steps_config], goal_cases)
    case (1 b seg2)
    then obtain ld w2 v2 where s2: "seg2 = [(OsMakedirs ld True, w2, Inr v2)]"
      and b: "b = a\<lparr>config := \<lparr>dataset_dir = dir, use_cuda = uc, logdir = ld\<rparr>\<rparr>"
      by auto
    let ?cfg = "\<lparr>dataset_dir = dir, use_cuda = uc, logdir = ld\<rparr>"
    let ?R = "conc {model_names uc} {N. \<exists>k1 k2 k3. N = rest_names uc k1 k2 k3}"
    have cb: "config b = ?cfg" by (simp add: b)
    have r12: "run_returned m0 ?cfg (os_path_join env)
                 {[''warnings.filterwarnings'', ''os.makedirs'']} (seg1 @ seg2)" for m0
      by (simp add: s1 s2 run_returned_def ok_event_def ok_call_def succeeded_def names_def)
    have ok: "cell_ok_ex ?cfg (os_path_join env) ?R (\<lambda>m0. settled m0 ?cfg)
       (bnd (cell_model env inc b) (\<lambda>g.
        bnd (cell_quant_params g) (\<lambda>g.
        bnd (cell_quantsim env inc g) (\<lambda>g.
        bnd (cell_equalize env g) (\<lambda>g.
        bnd (cell_cle_quantsim env inc g) (\<lambda>g.
        bnd (cell_bc_params g) (\<lambda>g.
        bnd (cell_bias_correction env inc g) (\<lambda>g.
        cell_bc_quantsim env inc g))))))))"
      using cell_ok_ex_from_model[OF cb refl, of env inc] by simp
    show ?case
    proof (rule steps_weaken[OF ok[unfolded cell_ok_ex_def]], goal_cases)
      case (1 seg3 g')
      then obtain m0 where r3: "run_returned m0 ?cfg (os_path_join env) ?R seg3"
        and st: "settled m0 ?cfg g'" by auto
      have "run_returned m0 ?cfg (os_path_join env)
              {N. \<exists>k1 k2 k3. N = notebook_calls uc k1 k2 k3} ((seg1 @ seg2) @ seg3)"
        by (rule run_returned_mono[OF run_returned_append[OF r12 r3] notebook_calls_split])
      with st show ?case by auto
    next
      case (2 seg3 e)
      then obtain m0 where r3: "run_raised m0 ?cfg (os_path_join env) ?R seg3 e" by auto
      have "run_raised m0 ?cfg (os_path_join env)
              {N. \<exists>k1 k2 k3. N = notebook_calls uc k1 k2 k3} ((seg1 @ seg2) @ seg3) e"
        by (rule run_raised_mono[OF run_raised_append[OF r12 r3] notebook_calls_split])
      then show ?case by auto
    qed
  next
    case (2 seg2 e)
    then obtain ld w2 x where s2: "seg2 = [(OsMakedirs ld True, w2, Inl x)]"
      and e: "e = External x" by auto
    have "prefix (names (seg1 @ seg2)) (notebook_calls uc 0 0 0)"
      using notebook_calls_prefix2[of uc 0 0 0] by (simp add: s1 s2 names_def)
    then have "\<exists>N\<in>{N. \<exists>k1 k2 k3. N = notebook_calls uc k1 k2 k3}.
                 prefix (names (seg1 @ seg2)) N"
      by blast
    then have "run_raised PyNone \<lparr>dataset_dir = dir, use_cuda = uc, logdir = ld\<rparr>
            (os_path_join env) {N. \<exists>k1 k2 k3. N = notebook_calls uc k1 k2 k3} (seg1 @ seg2) e"
      by (simp add: s1 s2 e run_raised_def ok_event_def ok_call_def succeeded_def
            failed_with_def)
    then show ?case by blast
  qed
next
  case (2 seg1 e)
  then obtain w1 x where s1: "seg1 = [(FilterWarnings ''ignore'' ''.*param.*'', w1, Inl x)]"
    and e: "e = External x" by auto
  have "prefix (names seg1) (notebook_calls uc 0 0 0)"
    by (simp add: s1 notebook_calls_def)
  then have "\<exists>N\<in>{N. \<exists>k1 k2 k3. N = notebook_calls uc k1 k2 k3}. prefix (names seg1) N"
    by blast
  then have "run_raised PyNone \<lparr>dataset_dir = dir, use_cuda = uc, logdir = []\<rparr>
          (os_path_join env) {N. \<exists>k1 k2 k3. N = notebook_calls uc k1 k2 k3} seg1 e"
    by (simp add: s1 e run_raised_def ok_event_def ok_call_def)
  then show ?case by blast
qed

lemma notebook_run:
  "\<exists>ld m0. case fst (notebook env inc dir uc w) of
      Inr g' \<Rightarrow>
        run_returned m0 \<lparr>dataset_dir = dir, use_cuda = uc, logdir = ld\<rparr> (os_path_join env)
          {N. \<exists>k1 k2 k3. N = notebook_calls uc k1 k2 k3}
          (trace (snd (notebook env inc dir uc w))) \<and>
        settled m0 \<lparr>dataset_dir = dir, use_cuda = uc, logdir = ld\<rparr> g'
    | Inl e \<Rightarrow>
        run_raised m0 \<lparr>dataset_dir = dir, use_cuda = uc, logdir = ld\<rparr> (os_path_join env)
          {N. \<exists>k1 k2 k3. N = notebook_calls uc k1 k2 k3}
          (trace (snd (notebook env inc dir uc w))) e"
  using stepsD[OF notebook_steps, of env inc dir uc "state_init w"]
  by (auto simp: notebook_def state_init_def split: sum.splits)

lemma succeeded_not_Inl: "list_all succeeded tr \<Longrightarrow> (c, w, Inl x) \<notin> set tr"
  by (auto simp: list_all_iff succeeded_def)

lemma failed_with_mem:
  assumes "failed_with y tr" and "(c, w, Inl x) \<in> set tr"
  shows "x = y \<and> last tr = (c, w, Inl x)"
proof (cases tr rule: rev_cases)
  case Nil
  with assms(2) show ?thesis by simp
next
  case (snoc ys e)
  with assms(1) have l: "snd (snd e) = Inl y" and b: "list_all succeeded ys"
    by (simp_all add: failed_with_def)
  from assms(2) snoc succeeded_not_Inl[OF b] have "e = (c, w, Inl x)" by auto
  with l snoc show ?thesis by simp
qed

lemma notebook_run_cases:
  assumes "notebook env inc dir uc w = (r, s')"
  obtains ld m0 g' where "r = Inr g'"
      "run_returned m0 \<lparr>dataset_dir = dir, use_cuda = uc, logdir = ld\<rparr> (os_path_join env)
         {N. \<exists>k1 k2 k3. N = notebook_calls uc k1 k2 k3} (trace s')"
      "settled m0 \<lparr>dataset_dir = dir, use_cuda = uc, logdir = ld\<rparr> g'"
  | ld m0 e where "r = Inl e"
      "run_raised m0 \<lparr>dataset_dir = dir, use_cuda = uc, logdir = ld\<rparr> (os_path_join env)
         {N. \<exists>k1 k2 k3. N = notebook_calls uc k1 k2 k3} (trace s') e"
proof -
  from notebook_run[where env = env and inc = inc and dir = dir and uc = uc and w = w]
  obtain ld m0 where
    h: "case r of
          Inr g' \<Rightarrow> run_returned m0 \<lparr>dataset_dir = dir, use_cuda = uc, logdir = ld\<rparr>
                     (os_path_join env) {N. \<exists>k1 k2 k3. N = notebook_calls uc k1 k2 k3}
                     (trace s') \<and>
                   settled m0 \<lparr>dataset_dir = dir, use_cuda = uc, logdir = ld\<rparr> g'
        | Inl e \<Rightarrow> run_raised m0 \<lparr>dataset_dir = dir, use_cuda = uc, logdir = ld\<rparr>
                     (os_path_join env) {N. \<exists>k1 k2 k3. N = notebook_calls uc k1 k2 k3}
                     (trace s') e"
    unfolding assms fst_conv snd_conv by blast
  show thesis
  proof (cases r)
    case (Inl e)
    with h that(2) show thesis by auto
  next
    case (Inr g')
    with h that(1) show thesis by auto
  qed
qed

lemma ok_eventD:
  "list_all (ok_event m0 cfg jn) tr \<Longrightarrow> e \<in> set tr \<Longrightarrow> ok_call m0 cfg jn (fst e)"
  by (auto simp: list_all_iff ok_event_def)

lemma notebook_events_ok:
  assumes "notebook env inc dir uc w = (r, s')"
  obtains ld m0 k1 k2 k3 where
    "list_all (ok_event m0 \<lparr>dataset_dir = dir, use_cuda = uc, logdir = ld\<rparr> (os_path_join env))
       (trace s')"
    "prefix (names (trace s')) (notebook_calls uc k1 k2 k3)"
    "\<And>g'. r = Inr g' \<Longrightarrow> names (trace s') = notebook_calls uc k1 k2 k3 \<and>
        settled m0 \<lparr>dataset_dir = dir, use_cuda = uc, logdir = ld\<rparr> g'"
proof (rule notebook_run_cases[OF assms], goal_cases)
  case (1 ld m0 g')
  from 1(3) obtain k1 k2 k3 where n: "names (trace s') = notebook_calls uc k1 k2 k3"
    by (auto simp: run_returned_def)
  show ?case
    by (rule 1(1)[of m0 ld k1 k2 k3]) (use 1 n in \<open>simp_all add: run_returned_def\<close>)
next
  case (2 ld m0 e)
  from 2(3) obtain k1 k2 k3 where n: "prefix (names (trace s')) (notebook_calls uc k1 k2 k3)"
    by (auto simp: run_raised_def)
  show ?case
    by (rule 2(1)[of m0 ld k1 k2 k3]) (use 2 n in \<open>simp_all add: run_raised_def\<close>)
qed

lemma toy_run_returns:
  "\<exists>g'. fst (notebook (toy_env True) toy_inc ''/data/imagenet'' True toy_world_init) = Inr g'"
  by (simp add: run_defs toy_defs)


lemma prefix_filter_length:
  "prefix xs ys \<Longrightarrow> length (filter P xs) \<le> length (filter P ys)"
  by (auto simp: prefix_def)

lemma prefix_snoc_mem:
  assumes "prefix xs (ys @ [z])" "z \<in> set xs" "z \<notin> set ys"
  shows "xs = ys @ [z]"
proof -
  from assms(1) have "prefix xs ys \<or> xs = ys @ [z]" by (auto simp: prefix_snoc)
  moreover have "\<not> prefix xs ys" using assms(2,3) by (auto dest: set_mono_prefix)
  ultimately show ?thesis by simp
qed

lemma call_name_makedirs: "call_name c = ''os.makedirs'' \<Longrightarrow> \<exists>d e. c = OsMakedirs d e"
  by (cases c) simp_all

lemma bnd_assoc: "bnd (bnd m f) k = bnd m (\<lambda>a. bnd (f a) k)"
  by (rule ext) (simp add: bnd_def split: prod.splits sum.splits)

lemma bnd_ret: "bnd (ret a) f = f a"
  by (rule ext) (simp add: bnd_def ret_def)

lemma steps_ext_bnd:
  assumes "\<And>v w. steps (f v) (\<lambda>seg. Q ((c, w, Inr v) # seg)) (\<lambda>seg. E ((c, w, Inr v) # seg))"
    and "\<And>w x. E [(c, w, Inl x)] (External x)"
  shows "steps (bnd (ext_call env c) f) Q E"
proof (rule steps_bnd[where
      ?Q1.0 = "\<lambda>seg v. \<exists>w. seg = [(c, w, Inr v)]" and
      ?E1.0 = "\<lambda>seg e. \<exists>w x. seg = [(c, w, Inl x)] \<and> e = External x"], goal_cases)
  case 1
  show ?case by (rule steps_ext) simp_all
next
  case (2 v seg1)
  then obtain w where "seg1 = [(c, w, Inr v)]" by auto
  with assms(1)[of v w] show ?case by simp
next
  case (3 seg e)
  with assms(2) show ?case by auto
qed

lemma notebook_butlast_succeeded:
  assumes "notebook env inc dir uc w = (r, s')"
  shows "list_all succeeded (butlast (trace s'))"
proof (rule notebook_run_cases[OF assms], goal_cases)
  case (1 ld m0 g')
  then have "list_all succeeded (trace s')" by (simp add: run_returned_def)
  then show ?case by (auto simp: list_all_iff dest: in_set_butlastD)
next
  case (2 ld m0 e)
  show ?case
  proof (cases e)
    case (Raised msg)
    with 2 have "list_all succeeded (trace s')" by (simp add: run_raised_def)
    then show ?thesis by (auto simp: list_all_iff dest: in_set_butlastD)
  next
    case (External x)
    with 2 show ?thesis by (simp add: run_raised_def failed_with_def)
  qed
qed

subsection \<open>Running the notebook call by call\<close>

lemma bnd_if: "bnd (if c then a else b) k = (if c then bnd a k else bnd b k)"
  by simp

lemma bnd_raise: "bnd (raise msg) k = raise msg"
  by (rule ext) (simp add: bnd_def raise_def)

lemma steps_if:
  "steps a Q E \<Longrightarrow> steps b Q E \<Longrightarrow> steps (if c then a else b) Q E"
  by simp

lemma steps_cuda_bnd:
  assumes "\<And>b. steps (f b) Q E"
  shows "steps (bnd (torch_cuda_is_available env) f) Q E"
  using assms by (simp add: steps_def bnd_def torch_cuda_is_available_def)

lemma steps_strftime_bnd:
  assumes "\<And>b. steps (f b) Q E"
  shows "steps (bnd (datetime_now_strftime env fmt) f) Q E"
  using assms by (simp add: steps_def bnd_def datetime_now_strftime_def)

lemma callback_events_Nil [simp]: "callback_events []"
  by (simp add: callback_events_def)

lemma callback_events_append [simp]:
  "callback_events (xs @ ys) = (callback_events xs \<and> callback_events ys)"
  by (simp add: callback_events_def)

lemma steps_callbacks:
  "steps (run_callbacks env inc cb us)
     (\<lambda>seg u. callback_events seg \<and> names seg = callback_names (length us))
     (\<lambda>seg e. callback_events seg \<and> prefix (names seg) (callback_names (length us)))"
proof (induction us)
  case Nil
  show ?case by (simp add: steps_ret callback_names_def)
next
  case (Cons u us)
  obtain p uc where cb: "cb = PartialEvaluate p uc" by (cases cb)
  show ?case
    unfolding run_callbacks.simps cb callback_apply_def callback.case
      ImageNetDataPipeline_evaluate_def bnd_assoc
    apply (rule steps_ext_bnd)
     apply (rule steps_ext_bnd)
      apply (rule steps_weaken[OF Cons.IH[unfolded cb]])
       apply (simp_all add: callback_events_def callback_names_Suc evaluate_names_def names_def)
    done
qed

lemma steps_compute_encodings_bnd:
  assumes "\<And>cbseg v w k w0. callback_events cbseg \<Longrightarrow> names cbseg = callback_names k \<Longrightarrow>
       k = length (fst (enter env (ComputeEncodings q cb n) w0)) \<Longrightarrow>
       steps (f v) (\<lambda>seg. Q (cbseg @ (ComputeEncodings q cb n, w, Inr v) # seg))
                   (\<lambda>seg. E (cbseg @ (ComputeEncodings q cb n, w, Inr v) # seg))"
    and "\<And>cbseg w x k w0. callback_events cbseg \<Longrightarrow> names cbseg = callback_names k \<Longrightarrow>
       k = length (fst (enter env (ComputeEncodings q cb n) w0)) \<Longrightarrow>
       E (cbseg @ [(ComputeEncodings q cb n, w, Inl x)]) (External x)"
    and "\<And>cbseg e k w0. callback_events cbseg \<Longrightarrow> prefix (names cbseg) (callback_names k) \<Longrightarrow>
       k = length (fst (enter env (ComputeEncodings q cb n) w0)) \<Longrightarrow> E cbseg e"
  shows "steps (bnd (compute_encodings env inc q cb n) f) Q E"
proof (rule steps_bnd[where
      ?Q1.0 = "\<lambda>seg v. \<exists>cbseg w k w0. callback_events cbseg \<and> names cbseg = callback_names k \<and>
                 k = length (fst (enter env (ComputeEncodings q cb n) w0)) \<and>
                 seg = cbseg @ [(ComputeEncodings q cb n, w, Inr v)]" and
      ?E1.0 = E], goal_cases)
  case 1
  show ?case
    unfolding compute_encodings_def
  proof (rule steps_with_callback, rule steps_bnd[OF steps_callbacks], goal_cases)
    case (1 us w0 a seg1)
    then have c: "callback_events seg1" and n: "names seg1 = callback_names (length us)"
      and l: "length us = length (fst (enter env (ComputeEncodings q cb n) w0))" by simp_all
    show ?case
    proof (rule steps_ext, goal_cases)
      case (1 w v)
      from c n l show ?case by auto
    next
      case (2 w x)
      from assms(2)[OF c n l] show ?case .
    qed
  next
    case (2 us w0 seg e)
    then have c: "callback_events seg" and n: "prefix (names seg) (callback_names (length us))"
      and l: "length us = length (fst (enter env (ComputeEncodings q cb n) w0))" by simp_all
    from assms(3)[OF c n l] show ?case .
  qed
next
  case (2 v seg1)
  then obtain cbseg w k w0 where "callback_events cbseg" "names cbseg = callback_names k"
    "k = length (fst (enter env (ComputeEncodings q cb n) w0))"
    "seg1 = cbseg @ [(ComputeEncodings q cb n, w, Inr v)]" by auto
  with assms(1)[of cbseg k w0 v w] show ?case by simp
next
  case (3 seg e)
  then show ?case .
qed

lemma flow_next_callback:
  "callback_events [e] \<Longrightarrow> flow_next f e = f"
  by (cases e; cases "fst e"; cases "snd (snd e)")
     (simp_all add: callback_events_def flow_next_def)

lemma flow_call_callback:
  "callback_events [e] \<Longrightarrow> encoding f \<Longrightarrow> flow_call f (fst e)"
  by (cases "fst e") (simp_all add: callback_events_def flow_call_def)

lemma flow_ok_callback [simp]:
  "callback_events cbseg \<Longrightarrow> encoding f \<Longrightarrow> flow_ok f (cbseg @ rest) = flow_ok f rest"
proof (induction cbseg)
  case Nil
  show ?case by simp
next
  case (Cons e es)
  from Cons.prems(1) have e: "callback_events [e]" and es: "callback_events es"
    by (simp_all add: callback_events_def)
  show ?case
    using Cons.IH[OF es Cons.prems(2)] flow_next_callback[OF e, of f]
      flow_call_callback[OF e Cons.prems(2)]
    by simp
qed

lemma flow_ok_callback_only:
  "callback_events cbseg \<Longrightarrow> encoding f \<Longrightarrow> flow_ok f cbseg"
  using flow_ok_callback[of cbseg f "[]"] by simp

lemmas cell_defs = notebook_cells_def cell_imports_def cell_config_def cell_model_def
  cell_quant_params_def cell_quantsim_def cell_equalize_def cell_cle_quantsim_def
  cell_bc_params_def cell_bias_correction_def cell_bc_quantsim_def make_dummy_input_def
  use_cuda_guard_def ImageNetDataPipeline_evaluate_def ImageNetDataPipeline_data_loader_def
  ImageNetDataPipeline_init_def

lemmas steps_rules = steps_ext_bnd steps_compute_encodings_bnd steps_cuda_bnd steps_strftime_bnd
  steps_if steps_ret steps_raise steps_ext

lemmas flow_defs = flow_call_def flow_next_def flow_init_def


lemma prefix_callback_names [simp]:
  "prefix xs (callback_names k) \<Longrightarrow> prefix xs (callback_names k @ ys)"
  by (rule prefix_prefix)

lemmas names_defs = notebook_calls_def model_names_def baseline_names_def quantsim_names_def
  dummy_input_names_def evaluate_names_def

lemma notebook_names_fixed:
  assumes H: "\<And>q cb n w. length (fst (enter env (ComputeEncodings q cb n) w)) = k"
  shows "steps (notebook_cells env inc dir uc)
     (\<lambda>seg g'. names seg = notebook_calls uc k k k)
     (\<lambda>seg e. prefix (names seg) (notebook_calls uc k k k))"
proof (cases uc)
  case True
  show ?thesis
    unfolding cell_defs
    apply (simp add: True Let_def bnd_assoc bnd_ret bnd_if bnd_raise cong: if_cong)
    apply (rule steps_rules | simp add: names_defs H)+
    done
next
  case False
  show ?thesis
    unfolding cell_defs
    apply (simp add: False Let_def bnd_assoc bnd_ret bnd_if bnd_raise cong: if_cong)
    apply (rule steps_rules | simp add: names_defs H)+
    done
qed

subsection \<open>The log and the environment\<close>

lemma enters_refl [simp]: "enters env w w"
  by (simp add: enters_def)

lemma enters_step: "enters env w (snd (enter env c w))"
  unfolding enters_def by (rule r_into_rtranclp) blast

lemma enters_trans: "enters env w w1 \<Longrightarrow> enters env w1 w2 \<Longrightarrow> enters env w w2"
  unfolding enters_def by (rule rtranclp_trans)

lemma follows_enters:
  "enters env w w1 \<Longrightarrow> follows env w1 tr w2 \<Longrightarrow> follows env w tr w2"
  by (cases tr) (auto intro: enters_trans)

lemma follows_append:
  "follows env w (xs @ ys) w2 = (\<exists>w1. follows env w xs w1 \<and> follows env w1 ys w2)"
proof (induction xs arbitrary: w)
  case Nil
  show ?case
  proof
    assume "follows env w ([] @ ys) w2"
    then have "follows env w [] w \<and> follows env w ys w2" by simp
    then show "\<exists>w1. follows env w [] w1 \<and> follows env w1 ys w2" by blast
  next
    assume "\<exists>w1. follows env w [] w1 \<and> follows env w1 ys w2"
    then obtain w1 where "enters env w w1" "follows env w1 ys w2" by auto
    then show "follows env w ([] @ ys) w2" by (simp add: follows_enters)
  qed
next
  case (Cons a xs)
  show ?case by (simp add: Cons.IH)
qed

lemma replays_ret: "replays env (ret a)"
  by (simp add: replays_def ret_def)

lemma replays_raise: "replays env (raise msg)"
  by (simp add: replays_def raise_def)

lemma replays_ext: "replays env (ext_call env c)"
  by (auto simp: replays_def ext_call_def split: prod.splits sum.splits)

lemma replays_cuda: "replays env (torch_cuda_is_available env)"
  by (simp add: replays_def torch_cuda_is_available_def)

lemma replays_strftime: "replays env (datetime_now_strftime env fmt)"
  by (simp add: replays_def datetime_now_strftime_def)

lemma replays_bnd:
  assumes "replays env m" and "\<And>a. replays env (f a)"
  shows "replays env (bnd m f)"
  unfolding replays_def
proof
  fix s
  obtain r s1 where ms: "m s = (r, s1)" by (cases "m s")
  from assms(1)[unfolded replays_def, rule_format, of s] ms obtain seg1 where
    t1: "trace s1 = trace s @ seg1" and f1: "follows env (world s) seg1 (world s1)" by auto
  show "\<exists>seg. trace (snd (bnd m f s)) = trace s @ seg \<and>
          follows env (world s) seg (world (snd (bnd m f s)))"
  proof (cases r)
    case (Inl e)
    with ms t1 f1 show ?thesis by (auto simp: bnd_def)
  next
    case (Inr a)
    from assms(2)[of a, unfolded replays_def, rule_format, of s1] obtain seg2 where
      t2: "trace (snd (f a s1)) = trace s1 @ seg2"
      and f2: "follows env (world s1) seg2 (world (snd (f a s1)))" by auto
    have b: "bnd m f s = f a s1" using ms Inr by (simp add: bnd_def)
    have "follows env (world s) (seg1 @ seg2) (world (snd (f a s1)))"
      using f1 f2 by (auto simp: follows_append)
    with t1 t2 b show ?thesis by auto
  qed
qed

lemma replays_if: "replays env a \<Longrightarrow> replays env b \<Longrightarrow> replays env (if c then a else b)"
  by simp

lemma replays_evaluate: "replays env (ImageNetDataPipeline_evaluate env inc p m its u)"
  unfolding ImageNetDataPipeline_evaluate_def
  by (intro replays_bnd replays_ext)

lemma replays_callbacks: "replays env (run_callbacks env inc cb us)"
proof (induction us)
  case Nil
  show ?case by (simp add: replays_ret)
next
  case (Cons u us)
  obtain p uc where cb: "cb = PartialEvaluate p uc" by (cases cb)
  show ?case
    unfolding run_callbacks.simps cb callback_apply_def callback.case
    by (rule replays_bnd[OF replays_evaluate]) (rule Cons.IH[unfolded cb])
qed

lemma replays_compute_encodings: "replays (env :: ('w, 'x) env) (compute_encodings env inc q cb n)"
  unfolding replays_def
proof
  fix s :: "('w, 'x) state"
  let ?c = "ComputeEncodings q cb n"
  obtain us w1 where en: "enter env ?c (world s) = (us, w1)" by (cases "enter env ?c (world s)")
  let ?m = "bnd (run_callbacks env inc cb us) (\<lambda>_. ext_call env ?c)"
  have "replays env ?m" by (intro replays_bnd replays_callbacks replays_ext)
  from this[unfolded replays_def, rule_format, of "s\<lparr>world := w1\<rparr>"] obtain seg where
    t: "trace (snd (?m (s\<lparr>world := w1\<rparr>))) = trace s @ seg"
    and f: "follows env w1 seg (world (snd (?m (s\<lparr>world := w1\<rparr>))))" by auto
  have e: "enters env (world s) w1" using enters_step[of env "world s" ?c] en by simp
  have r: "compute_encodings env inc q cb n s = ?m (s\<lparr>world := w1\<rparr>)"
    by (simp add: compute_encodings_def ext_call_with_callback_def en)
  show "\<exists>seg. trace (snd (compute_encodings env inc q cb n s)) = trace s @ seg \<and>
          follows env (world s) seg (world (snd (compute_encodings env inc q cb n s)))"
    unfolding r using t follows_enters[OF e f] by blast
qed

lemmas replays_rules = replays_bnd replays_ext replays_ret replays_raise replays_cuda
  replays_strftime replays_if replays_compute_encodings

lemma replays_notebook: "replays env (notebook_cells env inc dir uc)"
  unfolding notebook_cells_def cell_imports_def cell_config_def cell_model_def
    cell_quant_params_def cell_quantsim_def cell_equalize_def cell_cle_quantsim_def
    cell_bc_params_def cell_bias_correction_def cell_bc_quantsim_def make_dummy_input_def
    use_cuda_guard_def ImageNetDataPipeline_evaluate_def ImageNetDataPipeline_data_loader_def
    Let_def
  by (intro replays_rules)

lemma notebook_follows:
  "follows env w (trace (snd (notebook env inc dir uc w))) (world (snd (notebook env inc dir uc w)))"
  using replays_notebook[unfolded replays_def, rule_format, of env inc dir uc "state_init w"]
  by (auto simp: notebook_def state_init_def)

lemma enters_keeps_dirs:
  assumes keep: "\<forall>c w. dirs_of w \<subseteq> dirs_of (snd (enter env c w))"
  shows "enters env w w1 \<Longrightarrow> d \<in> dirs_of w \<Longrightarrow> d \<in> dirs_of w1"
  unfolding enters_def
proof (induction rule: rtranclp_induct)
  case base
  then show ?case .
next
  case (step y z)
  from step.hyps(2) obtain c where "z = snd (enter env c y)" by blast
  with keep step.IH[OF step.prems] show ?case by blast
qed

lemma follows_keeps_dirs:
  assumes keep: "\<forall>c w. dirs_of w \<subseteq> dirs_of (snd (call_ext env c w))"
    and keep': "\<forall>c w. dirs_of w \<subseteq> dirs_of (snd (enter env c w))"
  shows "follows env w tr w1 \<Longrightarrow> d \<in> dirs_of w \<Longrightarrow> e \<in> set tr \<Longrightarrow> d \<in> dirs_of (fst (snd e))"
proof (induction tr arbitrary: w)
  case Nil
  then show ?case by simp
next
  case (Cons a tr)
  from Cons.prems have w: "enters env w (fst (snd a))"
    and f: "follows env (snd (call_ext env (fst a) (fst (snd a)))) tr w1" by simp_all
  from enters_keeps_dirs[OF keep' w Cons.prems(2)] have da: "d \<in> dirs_of (fst (snd a))" .
  with keep have d: "d \<in> dirs_of (snd (call_ext env (fst a) (fst (snd a))))"
    by blast
  show ?case
  proof (cases "e = a")
    case True
    with da show ?thesis by simp
  next
    case False
    with Cons.prems(3) have "e \<in> set tr" by simp
    from Cons.IH[OF f d this] show ?thesis .
  qed
qed

lemma follows_after_makedirs:
  assumes keep: "\<forall>c w. dirs_of w \<subseteq> dirs_of (snd (call_ext env c w))"
    and keep': "\<forall>c w. dirs_of w \<subseteq> dirs_of (snd (enter env c w))"
    and mk: "\<forall>d ex w v. fst (call_ext env (OsMakedirs d ex) w) = Inr v \<longrightarrow>
               d \<in> dirs_of (snd (call_ext env (OsMakedirs d ex) w))"
    and f: "follows env w (e0 # (OsMakedirs ld ex, w1, Inr v) # rest) w2"
    and e: "e \<in> set rest"
  shows "ld \<in> dirs_of (fst (snd e))"
proof -
  from f have a: "fst (call_ext env (OsMakedirs ld ex) w1) = Inr v"
    and b: "follows env (snd (call_ext env (OsMakedirs ld ex) w1)) rest w2"
    by auto
  from mk a have "ld \<in> dirs_of (snd (call_ext env (OsMakedirs ld ex) w1))" by blast
  from follows_keeps_dirs[OF keep keep' b this e] show ?thesis .
qed

lemma toy_keeps_dirs:
  "\<forall>c w. set (dirs w) \<subseteq> set (dirs (snd (call_ext (toy_env cuda) c w)))"
proof (intro allI)
  fix c w
  show "set (dirs w) \<subseteq> set (dirs (snd (call_ext (toy_env cuda) c w)))"
    by (cases c) (auto simp: toy_env_def fresh_def)
qed

lemma toy_enter_keeps_dirs:
  "\<forall>c w. set (dirs w) \<subseteq> set (dirs (snd (enter (toy_env cuda) c w)))"
proof (intro allI)
  fix c w
  show "set (dirs w) \<subseteq> set (dirs (snd (enter (toy_env cuda) c w)))"
    by (cases c) (auto simp: toy_env_def)
qed

lemma toy_makedirs_creates:
  "\<forall>d ex w v. fst (call_ext (toy_env cuda) (OsMakedirs d ex) w) = Inr v \<longrightarrow>
     d \<in> set (dirs (snd (call_ext (toy_env cuda) (OsMakedirs d ex) w)))"
  by (simp add: toy_env_def)

lemma stepsE:
  assumes "steps m Q E" and "m s = (r, s')"
  shows "case r of Inl e \<Rightarrow> E (appended s s') e | Inr a \<Rightarrow> Q (appended s s') a"
proof -
  from stepsD[OF assms(1), of s] assms(2) obtain seg where
    t: "trace s' = trace s @ seg" and c: "case r of Inl e \<Rightarrow> E seg e | Inr a \<Rightarrow> Q seg a"
    by auto
  from t have a: "appended s s' = seg" by (simp add: appended_def)
  show ?thesis unfolding a by (rule c)
qed

lemma notebook_calls_has_correct_bias: "''correct_bias'' \<in> set (notebook_calls uc k1 k2 k3)"
  by (simp add: notebook_calls_def)

lemma callback_names_set:
  "set (callback_names k) \<subseteq> {''ImageNetEvaluator'', ''evaluator.evaluate''}"
  by (induction k) (auto simp: callback_names_def evaluate_names_def)

lemma filter_callback_names:
  "n \<noteq> ''ImageNetEvaluator'' \<Longrightarrow> n \<noteq> ''evaluator.evaluate'' \<Longrightarrow>
   filter (\<lambda>x. x = n) (callback_names k) = []"
  using callback_names_set[of k] by (auto simp: filter_empty_conv)

lemma notebook_calls_save:
  "\<exists>A. notebook_calls uc k1 k2 k3 =
          ''warnings.filterwarnings'' # ''os.makedirs'' # A @ [''torch.save'']
     \<and> ''torch.save'' \<notin> set A \<and>
     length (filter (\<lambda>n. n = ''torch.save'') (notebook_calls uc k1 k2 k3)) = 1"
proof -
  let ?A = "model_names uc @ baseline_names uc k1 @ [''equalize_model''] @ quantsim_names uc k2
     @ [''ImageNetDataLoader'', ''.data_loader'', ''QuantParams'', ''correct_bias'']
     @ quantsim_names uc k3"
  have cb: "''torch.save'' \<notin> set (callback_names k)" for k
    using callback_names_set[of k] by auto
  have a: "notebook_calls uc k1 k2 k3 =
      ''warnings.filterwarnings'' # ''os.makedirs'' # ?A @ [''torch.save'']"
    by (simp add: notebook_calls_def)
  have b: "''torch.save'' \<notin> set ?A"
    by (simp add: model_names_def baseline_names_def quantsim_names_def evaluate_names_def
          dummy_input_names_def cb)
  have c: "length (filter (\<lambda>n. n = ''torch.save'') (notebook_calls uc k1 k2 k3)) = 1"
    by (simp add: notebook_calls_def model_names_def baseline_names_def quantsim_names_def
          evaluate_names_def dummy_input_names_def filter_callback_names)
  from a b c show ?thesis by blast
qed

subsection \<open>The flow of objects\<close>

lemma changes_callback:
  "callback_events [e] \<Longrightarrow> changes_in_place (fst e) = None"
  by (cases "fst e") (simp_all add: callback_events_def changes_in_place_def)

lemma loaded_changes_callback [simp]:
  "callback_events cbseg \<Longrightarrow> loaded_changes f (cbseg @ rest) = loaded_changes f rest"
proof (induction cbseg)
  case Nil
  show ?case by simp
next
  case (Cons e es)
  from Cons.prems have e: "callback_events [e]" and es: "callback_events es"
    by (simp_all add: callback_events_def)
  show ?case
    using Cons.IH[OF es] flow_next_callback[OF e, of f] changes_callback[OF e] by simp
qed

lemma copy_aliases_callback [simp]:
  "callback_events cbseg \<Longrightarrow> copy_aliases f (cbseg @ rest) = copy_aliases f rest"
proof (induction cbseg)
  case Nil
  show ?case by simp
next
  case (Cons e es)
  from Cons.prems have e: "callback_events [e]" and es: "callback_events es"
    by (simp_all add: callback_events_def)
  have "\<not> (case fst e of
              CopyDeepcopy m \<Rightarrow> (case snd (snd e) of Inl x \<Rightarrow> False | Inr v \<Rightarrow> loaded f = Some v)
            | _ \<Rightarrow> False)"
    using e by (cases "fst e") (simp_all add: callback_events_def)
  then show ?case
    using Cons.IH[OF es] flow_next_callback[OF e, of f] by simp
qed

lemma loaded_changes_callback_only:
  "callback_events cbseg \<Longrightarrow> loaded_changes f cbseg = []"
  using loaded_changes_callback[of cbseg f "[]"] by simp

lemma copy_aliases_callback_only:
  "callback_events cbseg \<Longrightarrow> \<not> copy_aliases f cbseg"
  using copy_aliases_callback[of cbseg f "[]"] by simp

lemmas change_defs = changes_in_place_def expected_changes_def
  loaded_changes_callback_only copy_aliases_callback_only

lemma notebook_changes:
  "steps (notebook_cells env inc dir uc)
     (\<lambda>seg g'. \<not> copy_aliases flow_init seg \<longrightarrow>
        loaded_changes flow_init seg = expected_changes uc)
     (\<lambda>seg e. \<not> copy_aliases flow_init seg \<longrightarrow>
        prefix (loaded_changes flow_init seg) (expected_changes uc))"
proof (cases uc)
  case True
  show ?thesis
    unfolding cell_defs
    apply (simp add: True Let_def bnd_assoc bnd_ret bnd_if bnd_raise cong: if_cong)
    apply (rule steps_rules | simp add: flow_defs change_defs)+
    done
next
  case False
  show ?thesis
    unfolding cell_defs
    apply (simp add: False Let_def bnd_assoc bnd_ret bnd_if bnd_raise cong: if_cong)
    apply (rule steps_rules | simp add: flow_defs change_defs)+
    done
qed

lemma quantsim_flow:
  "steps (cell_quantsim env inc g)
     (\<lambda>seg g'. flow_ok (flow_init\<lparr>loaded := Some (model g)\<rparr>) seg \<and>
        (\<not> copy_aliases (flow_init\<lparr>loaded := Some (model g)\<rparr>) seg \<longrightarrow>
           loaded_changes (flow_init\<lparr>loaded := Some (model g)\<rparr>) seg = []) \<and>
        model g' = model g \<and>
        (\<exists>k. names seg = baseline_names (use_cuda (config g)) k))
     (\<lambda>seg e. flow_ok (flow_init\<lparr>loaded := Some (model g)\<rparr>) seg \<and>
        (\<not> copy_aliases (flow_init\<lparr>loaded := Some (model g)\<rparr>) seg \<longrightarrow>
           loaded_changes (flow_init\<lparr>loaded := Some (model g)\<rparr>) seg = []))"
proof (cases "use_cuda (config g)")
  case True
  show ?thesis
    unfolding cell_defs
    apply (simp add: True Let_def bnd_assoc bnd_ret bnd_if bnd_raise cong: if_cong)
    apply (rule steps_rules | simp add: flow_defs change_defs flow_ok_callback_only
        baseline_names_def dummy_input_names_def evaluate_names_def names_def | blast)+
    done
next
  case False
  show ?thesis
    unfolding cell_defs
    apply (simp add: False Let_def bnd_assoc bnd_ret bnd_if bnd_raise cong: if_cong)
    apply (rule steps_rules | simp add: flow_defs change_defs flow_ok_callback_only
        baseline_names_def dummy_input_names_def evaluate_names_def names_def | blast)+
    done
qed


subsection \<open>The evaluation wrapper\<close>

text \<open>
  C2. \<^verbatim>\<open>ImageNetDataPipeline.evaluate\<close> returns a value \<open>v\<close> exactly when the library
  constructs an evaluator from the pipeline's dataset directory and the three settings of
  \<^verbatim>\<open>image_net_config\<close>, and that evaluator's \<^verbatim>\<open>evaluate\<close>, called with the same model,
  iterations and use_cuda, returns \<open>v\<close>. The wrapper makes these two calls and no other,
  and hands the value back as it is.
\<close>

theorem evaluate_forwards_to_evaluator:
  "(ImageNetDataPipeline_evaluate env inc self m iterations uc s = (Inr v, s')) =
     (\<exists>evaluator w1 w2.
        call_ext env (NewImageNetEvaluator (dataset_dir (self_config self)) (image_size inc)
                        (batch_size inc) (num_workers inc)) (world s) = (Inr evaluator, w1) \<and>
        call_ext env (EvaluatorEvaluate evaluator m iterations uc) w1 = (Inr v, w2) \<and>
        s' = \<lparr>world = w2,
              trace = trace s @
                [(NewImageNetEvaluator (dataset_dir (self_config self)) (image_size inc)
                    (batch_size inc) (num_workers inc), world s, Inr evaluator),
                 (EvaluatorEvaluate evaluator m iterations uc, w1, Inr v)]\<rparr>)"
  by (auto simp: ImageNetDataPipeline_evaluate_def bnd_def ext_call_def
           split: prod.splits sum.splits)

theorem evaluate_forwards_to_evaluator_witness:
  "ImageNetDataPipeline_evaluate (toy_env False) toy_inc
     \<lparr>self_config = \<lparr>dataset_dir = ''/data/imagenet'', use_cuda = False, logdir = ''out''\<rparr>\<rparr>
     (PyObj 0) (Some 1) False \<lparr>world = \<lparr>next_id = 1, dirs = []\<rparr>, trace = []\<rparr>
   = (Inr (PyInt 70),
      \<lparr>world = \<lparr>next_id = 2, dirs = []\<rparr>,
       trace = [(NewImageNetEvaluator ''/data/imagenet'' 224 128 32,
                   \<lparr>next_id = 1, dirs = []\<rparr>, Inr (PyObj 1)),
                (EvaluatorEvaluate (PyObj 1) (PyObj 0) (Some 1) False,
                   \<lparr>next_id = 2, dirs = []\<rparr>, Inr (PyInt 70))]\<rparr>)"
  by (simp add: evaluate_forwards_to_evaluator toy_defs)

text \<open>
  C3, as stated, fails: the wrapper reads \<^verbatim>\<open>self._config['dataset_dir']\<close>. Two pipelines
  built from configurations with different dataset directories, called with equal
  arguments in the same world, behave differently: here one raises and the other returns
  an accuracy.
\<close>

theorem evaluate_depends_on_configuration_counterexample:
  "fst (ImageNetDataPipeline_evaluate (toy_env False) toy_inc
          \<lparr>self_config = \<lparr>dataset_dir = ''path/to/dataset'', use_cuda = False,
                           logdir = ''out''\<rparr>\<rparr>
          (PyObj 0) None False \<lparr>world = \<lparr>next_id = 1, dirs = []\<rparr>, trace = []\<rparr>)
     = Inl (External ''FileNotFoundError'') \<and>
   fst (ImageNetDataPipeline_evaluate (toy_env False) toy_inc
          \<lparr>self_config = \<lparr>dataset_dir = ''/data/imagenet'', use_cuda = False,
                           logdir = ''out''\<rparr>\<rparr>
          (PyObj 0) None False \<lparr>world = \<lparr>next_id = 1, dirs = []\<rparr>, trace = []\<rparr>)
     = Inr (PyInt 70)"
  by (simp add: ImageNetDataPipeline_evaluate_def bnd_def ext_call_def toy_defs)

text \<open>
  C3, amended. Besides its explicit arguments and the state of the external world, the
  wrapper depends on the dataset directory its instance was configured with, and on
  nothing else of the instance: two pipelines with the same dataset directory, whatever
  the rest of their configurations, do the same on equal arguments.
\<close>

theorem evaluate_determined_by_dataset_dir:
  "dataset_dir (self_config p1) = dataset_dir (self_config p2) \<Longrightarrow>
   ImageNetDataPipeline_evaluate env inc p1 m iterations uc s =
   ImageNetDataPipeline_evaluate env inc p2 m iterations uc s"
  by (simp add: ImageNetDataPipeline_evaluate_def)

theorem evaluate_determined_by_dataset_dir_witness:
  "ImageNetDataPipeline_evaluate (toy_env True) toy_inc
     \<lparr>self_config = \<lparr>dataset_dir = ''/data/imagenet'', use_cuda = True, logdir = ''a''\<rparr>\<rparr>
     (PyObj 0) None False \<lparr>world = toy_world_init, trace = []\<rparr> =
   ImageNetDataPipeline_evaluate (toy_env True) toy_inc
     \<lparr>self_config = \<lparr>dataset_dir = ''/data/imagenet'', use_cuda = False, logdir = ''b''\<rparr>\<rparr>
     (PyObj 0) None False \<lparr>world = toy_world_init, trace = []\<rparr>"
  using evaluate_determined_by_dataset_dir
    [of "\<lparr>self_config = \<lparr>dataset_dir = ''/data/imagenet'', use_cuda = True, logdir = ''a''\<rparr>\<rparr>"
        "\<lparr>self_config = \<lparr>dataset_dir = ''/data/imagenet'', use_cuda = False, logdir = ''b''\<rparr>\<rparr>"
        "toy_env True" toy_inc "PyObj 0" None False "\<lparr>world = toy_world_init, trace = []\<rparr>"]
  by simp

subsection \<open>Error handling\<close>

text \<open>
  C4. The notebook handles no exception. If a library call raises, the run ends there:
  the failing call is the last entry of the log and its exception is the run's exception,
  unchanged. An exception of the run that comes from a library is the exception of the
  last call made. The only exception the notebook raises itself is the one of the
  \<^verbatim>\<open>use_cuda\<close> guard, and then no library call has failed. The same holds for
  \<^verbatim>\<open>ImageNetDataPipeline.evaluate\<close> on its own: it never raises an exception of its own,
  and an exception of one of its two library calls is its exception.
\<close>

theorem external_exceptions_propagate:
  assumes "notebook env inc dir uc w = (r, s')"
    and "ImageNetDataPipeline_evaluate env inc self m iterations u s = (re, se)"
  shows "(\<forall>c w' x. (c, w', Inl x) \<in> set (trace s') \<longrightarrow>
            r = Inl (External x) \<and> last (trace s') = (c, w', Inl x)) \<and>
         (\<forall>x. r = Inl (External x) \<longrightarrow> failed_with x (trace s')) \<and>
         (\<forall>msg. r = Inl (Raised msg) \<longrightarrow>
            msg = ''use_cuda is True but cuda is unavailable'' \<and> uc \<and>
            list_all succeeded (trace s')) \<and>
         (\<forall>g'. r = Inr g' \<longrightarrow> list_all succeeded (trace s')) \<and>
         (\<forall>c w' x. (c, w', Inl x) \<in> set (drop (length (trace s)) (trace se)) \<longrightarrow>
            re = Inl (External x)) \<and>
         (\<forall>e. re = Inl e \<longrightarrow>
            (\<exists>x. e = External x \<and> failed_with x (drop (length (trace s)) (trace se))))"
proof -
  have nb: "(\<forall>c w' x. (c, w', Inl x) \<in> set (trace s') \<longrightarrow>
            r = Inl (External x) \<and> last (trace s') = (c, w', Inl x)) \<and>
         (\<forall>x. r = Inl (External x) \<longrightarrow> failed_with x (trace s')) \<and>
         (\<forall>msg. r = Inl (Raised msg) \<longrightarrow>
            msg = ''use_cuda is True but cuda is unavailable'' \<and> uc \<and>
            list_all succeeded (trace s')) \<and>
         (\<forall>g'. r = Inr g' \<longrightarrow> list_all succeeded (trace s'))"
  proof (rule notebook_run_cases[OF assms(1)], goal_cases)
    case (1 ld m0 g')
    then have "list_all succeeded (trace s')" by (simp add: run_returned_def)
    with 1(1) succeeded_not_Inl[OF this] show ?case by simp
  next
    case (2 ld m0 e)
    show ?case
    proof (cases e)
      case (Raised msg)
      with 2 have a: "list_all succeeded (trace s')" and "uc"
        "msg = ''use_cuda is True but cuda is unavailable''"
        by (simp_all add: run_raised_def)
      with 2(1) Raised succeeded_not_Inl[OF a] show ?thesis by simp
    next
      case (External y)
      with 2 have "failed_with y (trace s')" by (simp add: run_raised_def)
      with 2(1) External failed_with_mem[OF this] show ?thesis by auto
    qed
  qed
  have ev: "(\<forall>c w' x. (c, w', Inl x) \<in> set (drop (length (trace s)) (trace se)) \<longrightarrow>
            re = Inl (External x)) \<and>
         (\<forall>e. re = Inl e \<longrightarrow>
            (\<exists>x. e = External x \<and> failed_with x (drop (length (trace s)) (trace se))))"
    using assms(2)
    by (auto simp: ImageNetDataPipeline_evaluate_def bnd_def ext_call_def failed_with_def
          succeeded_def split: prod.splits sum.splits)
  from nb ev show ?thesis by simp
qed

theorem external_exceptions_propagate_witness:
  "fst (notebook (toy_env True) toy_inc committed_dataset_dir committed_use_cuda toy_world_init)
     = Inl (External ''FileNotFoundError'') \<and>
   last (trace (snd (notebook (toy_env True) toy_inc committed_dataset_dir committed_use_cuda
                       toy_world_init)))
     = (NewImageNetEvaluator ''path/to/dataset'' 224 128 32,
        \<lparr>next_id = 1, dirs = [''benchmark_output/cle_bc_2021-06-01-12-00-00'']\<rparr>,
        Inl ''FileNotFoundError'')"
proof -
  have "(NewImageNetEvaluator ''path/to/dataset'' 224 128 32,
        \<lparr>next_id = 1, dirs = [''benchmark_output/cle_bc_2021-06-01-12-00-00'']\<rparr>,
        Inl ''FileNotFoundError'')
     \<in> set (trace (snd (notebook (toy_env True) toy_inc committed_dataset_dir
                         committed_use_cuda toy_world_init)))"
    by (simp add: run_defs toy_defs)
  from external_exceptions_propagate[OF prod.collapse[symmetric] prod.collapse[symmetric],
      THEN conjunct1, rule_format, OF this]
  show ?thesis .
qed

subsection \<open>The order of the steps\<close>

text \<open>
  C5, as stated, fails. The notebook does not apply both transforms and then re-run the
  simulation: it re-runs the simulation and the evaluation after equalization, before
  bias correction, and again after bias correction. In a complete run the steps of the
  calls are 1, 2, 3, 4, 5 (equalization), 6, 6, 6, 6 (simulation, the evaluation made by
  the callback, encodings, evaluation), 5 (bias correction), 6, 6, 6, 6, 7: a re-run
  precedes a transform.
\<close>

theorem claimed_step_order_counterexample:
  "step_ranks False False
     (calls (trace (snd (notebook (toy_env True) toy_inc ''/data/imagenet'' True
                           toy_world_init))))
     = [1, 2, 3, 4, 5, 6, 6, 6, 6, 5, 6, 6, 6, 6, 7] \<and>
   \<not> claimed_step_order
     (calls (trace (snd (notebook (toy_env True) toy_inc ''/data/imagenet'' True
                           toy_world_init))))"
  by (simp add: run_defs toy_defs calls_def claimed_step_order_def)

text \<open>
  C5, amended. Every run makes the calls of \<open>notebook_calls\<close> in that order, up to the
  point where it ends; a run that returns has made all of them. The three numbers are
  how often the library invokes the callback in the three computations of encodings; each
  invocation is a run of \<^verbatim>\<open>ImageNetDataPipeline.evaluate\<close>, logged before the
  \<^verbatim>\<open>compute_encodings\<close> that made it. With a library that invokes the callback \<open>k\<close> times
  in every computation of encodings, the three numbers are \<open>k\<close>; with one invocation, a
  complete run makes 46 calls. So the order is: load the pretrained model; evaluate its
  floating-point accuracy; construct a simulation (of a batch-norm folded copy), compute
  its encodings and evaluate it; apply equalization; construct a simulation, compute
  encodings and evaluate; apply bias correction; construct a simulation, compute
  encodings and evaluate; save the model. Every computation of encodings is given the
  pipeline's \<^verbatim>\<open>evaluate\<close> with the configured \<^verbatim>\<open>use_cuda\<close> as callback, and one calibration
  batch as its argument.
\<close>

theorem notebook_call_order:
  assumes "notebook env inc dir uc w = (r, s')"
  shows "(\<exists>k1 k2 k3.
            prefix (names (trace s')) (notebook_calls uc k1 k2 k3) \<and>
            (\<forall>g'. r = Inr g' \<longrightarrow> names (trace s') = notebook_calls uc k1 k2 k3)) \<and>
         ((\<forall>q cb n w1. length (fst (enter env (ComputeEncodings q cb n) w1)) = k) \<longrightarrow>
            prefix (names (trace s')) (notebook_calls uc k k k) \<and>
            (\<forall>g'. r = Inr g' \<longrightarrow> names (trace s') = notebook_calls uc k k k)) \<and>
         (\<forall>e\<in>set (trace s'). \<forall>q cb n. fst e = ComputeEncodings q cb n \<longrightarrow>
            n = 1 \<and> (\<exists>p. cb = PartialEvaluate p uc \<and> dataset_dir (self_config p) = dir))"
proof -
  have a: "(\<exists>k1 k2 k3.
            prefix (names (trace s')) (notebook_calls uc k1 k2 k3) \<and>
            (\<forall>g'. r = Inr g' \<longrightarrow> names (trace s') = notebook_calls uc k1 k2 k3)) \<and>
         (\<forall>e\<in>set (trace s'). \<forall>q cb n. fst e = ComputeEncodings q cb n \<longrightarrow>
            n = 1 \<and> (\<exists>p. cb = PartialEvaluate p uc \<and> dataset_dir (self_config p) = dir))"
  proof (rule notebook_events_ok[OF assms], goal_cases)
    case (1 ld m0 k1 k2 k3)
    have "n = 1 \<and> (\<exists>p. cb = PartialEvaluate p uc \<and> dataset_dir (self_config p) = dir)"
      if "e \<in> set (trace s')" "fst e = ComputeEncodings q cb n" for e q cb n
      using ok_eventD[OF 1(1) that(1)] that(2) by (simp add: ok_call_def)
    moreover have "\<exists>k1 k2 k3.
              prefix (names (trace s')) (notebook_calls uc k1 k2 k3) \<and>
              (\<forall>g'. r = Inr g' \<longrightarrow> names (trace s') = notebook_calls uc k1 k2 k3)"
      using 1(2,3) by blast
    ultimately show ?case by blast
  qed
  have b: "prefix (names (trace s')) (notebook_calls uc k k k) \<and>
            (\<forall>g'. r = Inr g' \<longrightarrow> names (trace s') = notebook_calls uc k k k)"
    if H: "\<forall>q cb n w1. length (fst (enter env (ComputeEncodings q cb n) w1)) = k"
  proof -
    have n: "notebook_cells env inc dir uc (state_init w) = (r, s')"
      using assms by (simp add: notebook_def)
    have ap: "appended (state_init w) s' = trace s'"
      by (simp add: appended_def state_init_def)
    from H have H': "\<And>q cb n w1. length (fst (enter env (ComputeEncodings q cb n) w1)) = k"
      by blast
    from stepsE[OF notebook_names_fixed[OF H'] n] show ?thesis
      unfolding ap by (cases r) simp_all
  qed
  from a b show ?thesis by blast
qed

theorem notebook_call_order_witness:
  "names (trace (snd (notebook (toy_env True) toy_inc ''/data/imagenet'' True
                          toy_world_init))) = notebook_calls True 1 1 1 \<and>
   length (notebook_calls True 1 1 1) = 46"
proof -
  from toy_run_returns obtain g' where
    g: "fst (notebook (toy_env True) toy_inc ''/data/imagenet'' True toy_world_init) = Inr g'" ..
  have once: "\<forall>q cb n w1. length (fst (enter (toy_env True) (ComputeEncodings q cb n) w1)) = 1"
    by (simp add: toy_env_def)
  from notebook_call_order[where env = "toy_env True" and inc = toy_inc
      and dir = "''/data/imagenet''" and uc = True and w = toy_world_init and k = 1,
      OF prod.collapse[symmetric], THEN conjunct2, THEN conjunct1, THEN mp, OF once,
      THEN conjunct2, rule_format, OF g]
  have "names (trace (snd (notebook (toy_env True) toy_inc ''/data/imagenet'' True
                          toy_world_init))) = notebook_calls True 1 1 1" .
  moreover have "length (notebook_calls True 1 1 1) = 46"
    by (simp add: names_defs callback_names_def)
  ultimately show ?thesis by (rule conjI)
qed

subsection \<open>Bias correction\<close>

text \<open>
  C10. Every call of \<^verbatim>\<open>correct_bias\<close>, in every run, is given \<^verbatim>\<open>num_quant_samples = 1\<close>
  and \<^verbatim>\<open>num_bias_correct_samples = 1\<close>, and a run that returns has made the call. The cell
  that sets the two variables assigns 16 to both and then 1 to both, unconditionally: it
  leaves both at 1.
\<close>

theorem bias_correction_sample_counts:
  assumes "notebook env inc dir uc w = (r, s')"
  shows "(\<forall>e\<in>set (trace s'). \<forall>m p nq l nb.
            fst e = CorrectBias m p nq l nb \<longrightarrow> nq = 1 \<and> nb = 1) \<and>
         (\<forall>g'. r = Inr g' \<longrightarrow> ''correct_bias'' \<in> set (names (trace s'))) \<and>
         cell_bc_params g s =
           (Inr (g\<lparr>num_quant_samples := 1, num_bias_correct_samples := 1\<rparr>), s)"
proof (rule notebook_events_ok[OF assms], goal_cases)
  case (1 ld m0 k1 k2 k3)
  have a: "nq = 1 \<and> nb = 1" if "e \<in> set (trace s')" "fst e = CorrectBias m p nq l nb"
    for e m p nq l nb
    using ok_eventD[OF 1(1) that(1)] that(2) by (simp add: ok_call_def)
  have b: "''correct_bias'' \<in> set (names (trace s'))" if "r = Inr g'" for g'
    using 1(3)[OF that] notebook_calls_has_correct_bias by simp
  have c: "cell_bc_params g s =
           (Inr (g\<lparr>num_quant_samples := 1, num_bias_correct_samples := 1\<rparr>), s)"
    by (simp add: cell_bc_params_def ret_def)
  from a b c show ?case by blast
qed

theorem bias_correction_sample_counts_witness:
  "''correct_bias'' \<in> set (names (trace (snd (notebook (toy_env True) toy_inc ''/data/imagenet''
                                              True toy_world_init))))"
proof -
  from toy_run_returns obtain g' where
    "fst (notebook (toy_env True) toy_inc ''/data/imagenet'' True toy_world_init) = Inr g'" ..
  from bias_correction_sample_counts[OF prod.collapse[symmetric], THEN conjunct2,
      THEN conjunct1, rule_format, OF this]
  show ?thesis .
qed

subsection \<open>The checkpoint\<close>

text \<open>
  C7. There is a directory \<open>ld\<close>, the \<^verbatim>\<open>logdir\<close> of the configuration, such that in every
  run: every \<^verbatim>\<open>torch.save\<close> writes to \<^verbatim>\<open>os.path.join(ld, 'quantized_model.pth')\<close>; every
  \<^verbatim>\<open>os.makedirs\<close> is for \<open>ld\<close> with \<^verbatim>\<open>exist_ok=True\<close>; \<^verbatim>\<open>torch.save\<close> is called at most once,
  and exactly once in a run that returns; when it is called it is the last call of the
  run, all other calls of \<open>notebook_calls\<close> were made before it (the evaluations of the
  callback included, however many the library asked for), and the second call of the run
  was \<^verbatim>\<open>os.makedirs(ld, exist_ok=True)\<close>, which returned. No other call of the notebook
  writes a file. For any reading \<open>dirs_of\<close> of the directories in the external world: if
  \<^verbatim>\<open>os.makedirs\<close>, when it returns, has made its directory, and the library removes no
  directory (neither in answering a call nor in starting one that takes a callback), then
  \<open>ld\<close> exists in the world in which \<^verbatim>\<open>torch.save\<close> is called.
\<close>

theorem checkpoint_written_once:
  assumes "notebook env inc dir uc w = (r, s')"
  shows "\<exists>ld.
     (\<forall>e\<in>set (trace s'). \<forall>m p. fst e = TorchSave m p \<longrightarrow>
        p = os_path_join env ld ''quantized_model.pth'') \<and>
     (\<forall>e\<in>set (trace s'). \<forall>d ex. fst e = OsMakedirs d ex \<longrightarrow> d = ld \<and> ex) \<and>
     length (filter (\<lambda>n. n = ''torch.save'') (names (trace s'))) \<le> 1 \<and>
     (''torch.save'' \<in> set (names (trace s')) \<longrightarrow>
        (\<exists>k1 k2 k3. names (trace s') = notebook_calls uc k1 k2 k3) \<and>
        last (names (trace s')) = ''torch.save'' \<and>
        (\<exists>w1 v. trace s' ! 1 = (OsMakedirs ld True, w1, Inr v))) \<and>
     (\<forall>g'. r = Inr g' \<longrightarrow>
        logdir (config g') = ld \<and>
        length (filter (\<lambda>n. n = ''torch.save'') (names (trace s'))) = 1) \<and>
     ((\<forall>c w. dirs_of w \<subseteq> dirs_of (snd (call_ext env c w))) \<and>
      (\<forall>c w. dirs_of w \<subseteq> dirs_of (snd (enter env c w))) \<and>
      (\<forall>d ex w v. fst (call_ext env (OsMakedirs d ex) w) = Inr v \<longrightarrow>
         d \<in> dirs_of (snd (call_ext env (OsMakedirs d ex) w))) \<longrightarrow>
      (\<forall>e\<in>set (trace s'). \<forall>m p. fst e = TorchSave m p \<longrightarrow> ld \<in> dirs_of (fst (snd e))))"
proof (rule notebook_events_ok[OF assms], goal_cases)
  case (1 ld m0 k1 k2 k3)
  let ?tr = "trace s'"
  let ?N = "notebook_calls uc k1 k2 k3"
  from notebook_calls_save[of uc k1 k2 k3] obtain A where
    nc: "?N = ''warnings.filterwarnings'' # ''os.makedirs'' # A @ [''torch.save'']"
    and nA: "''torch.save'' \<notin> set A"
    and n1: "length (filter (\<lambda>n. n = ''torch.save'') ?N) = 1" by blast
  have a: "p = os_path_join env ld ''quantized_model.pth''"
    if "e \<in> set ?tr" "fst e = TorchSave m p" for e m p
    using ok_eventD[OF 1(1) that(1)] that(2) by (simp add: ok_call_def)
  have b: "d = ld \<and> ex" if "e \<in> set ?tr" "fst e = OsMakedirs d ex" for e d ex
    using ok_eventD[OF 1(1) that(1)] that(2) by (simp add: ok_call_def)
  have c: "length (filter (\<lambda>n. n = ''torch.save'') (names ?tr)) \<le> 1"
    using prefix_filter_length[OF 1(2), of "\<lambda>n. n = ''torch.save''"] n1 by simp
  have dec: "names ?tr = ?N \<and>
             (\<exists>e0 w1 v rest. ?tr = e0 # (OsMakedirs ld True, w1, Inr v) # rest \<and>
                call_name (fst e0) = ''warnings.filterwarnings'')"
    if sv: "''torch.save'' \<in> set (names ?tr)"
  proof -
    have "prefix (names ?tr) ((''warnings.filterwarnings'' # ''os.makedirs'' # A) @ [''torch.save''])"
      using 1(2) nc by simp
    from prefix_snoc_mem[OF this sv] nA
    have eq: "names ?tr = ?N" by (simp add: nc)
    then have "map (\<lambda>e. call_name (fst e)) ?tr =
                 ''warnings.filterwarnings'' # ''os.makedirs'' # A @ [''torch.save'']"
      by (simp add: names_def nc)
    then obtain e0 e1 rest where tr: "?tr = e0 # e1 # rest"
      and c0: "call_name (fst e0) = ''warnings.filterwarnings''"
      and c1: "call_name (fst e1) = ''os.makedirs''"
      and rest: "map (\<lambda>e. call_name (fst e)) rest = A @ [''torch.save'']"
      by (auto simp: map_eq_Cons_conv)
    from rest have ne: "rest \<noteq> []" by auto
    from c1 obtain dd ee where f: "fst e1 = OsMakedirs dd ee"
      using call_name_makedirs by blast
    have mem: "e1 \<in> set ?tr" by (simp add: tr)
    from b[OF mem f] have f': "fst e1 = OsMakedirs ld True" using f by simp
    have "e1 \<in> set (butlast ?tr)" using ne by (simp add: tr)
    with notebook_butlast_succeeded[OF assms] have "succeeded e1"
      by (simp add: list_all_iff)
    then obtain v where "snd (snd e1) = Inr v"
      by (auto simp: succeeded_def split: sum.splits)
    with f' obtain w1 where "e1 = (OsMakedirs ld True, w1, Inr v)"
      by (cases e1) auto
    with tr have "?tr = e0 # (OsMakedirs ld True, w1, Inr v) # rest" by simp
    with c0 have "\<exists>e0 w1 v rest. ?tr = e0 # (OsMakedirs ld True, w1, Inr v) # rest \<and>
                call_name (fst e0) = ''warnings.filterwarnings''"
      by (intro exI conjI)
    with eq show ?thesis by (rule conjI)
  qed
  have d: "(\<exists>k1 k2 k3. names ?tr = notebook_calls uc k1 k2 k3) \<and>
           last (names ?tr) = ''torch.save'' \<and>
           (\<exists>w1 v. ?tr ! 1 = (OsMakedirs ld True, w1, Inr v))"
    if sv: "''torch.save'' \<in> set (names ?tr)"
  proof -
    from dec[OF sv] obtain e0 w1 v rest where eq: "names ?tr = ?N"
      and tr: "?tr = e0 # (OsMakedirs ld True, w1, Inr v) # rest" by blast
    have "last (names ?tr) = ''torch.save''" by (simp add: eq nc)
    moreover have "?tr ! 1 = (OsMakedirs ld True, w1, Inr v)" by (simp add: tr)
    ultimately show ?thesis using eq by blast
  qed
  have e: "logdir (config g') = ld \<and>
        length (filter (\<lambda>n. n = ''torch.save'') (names ?tr)) = 1" if "r = Inr g'" for g'
    using 1(3)[OF that] n1 by (simp add: settled_def)
  have f: "ld \<in> dirs_of (fst (snd e))"
    if keep: "\<forall>c w. dirs_of w \<subseteq> dirs_of (snd (call_ext env c w))"
      and keep': "\<forall>c w. dirs_of w \<subseteq> dirs_of (snd (enter env c w))"
      and mk: "\<forall>d ex w v. fst (call_ext env (OsMakedirs d ex) w) = Inr v \<longrightarrow>
         d \<in> dirs_of (snd (call_ext env (OsMakedirs d ex) w))"
      and mem: "e \<in> set ?tr" and sv: "fst e = TorchSave m p" for e m p
  proof -
    from mem have "call_name (fst e) \<in> set (names ?tr)" by (simp add: names_def)
    with sv have "''torch.save'' \<in> set (names ?tr)" by simp
    from dec[OF this] obtain e0 w1 v rest where
      tr: "?tr = e0 # (OsMakedirs ld True, w1, Inr v) # rest"
      and c0: "call_name (fst e0) = ''warnings.filterwarnings''" by blast
    have n0: "e \<noteq> e0" using c0 sv by auto
    have n1: "e \<noteq> (OsMakedirs ld True, w1, Inr v)" using sv by auto
    from mem n0 n1 have er: "e \<in> set rest" by (simp add: tr)
    have fl: "follows env w (e0 # (OsMakedirs ld True, w1, Inr v) # rest) (world s')"
      using notebook_follows[of env w inc dir uc] assms tr by simp
    show ?thesis by (rule follows_after_makedirs[OF keep keep' mk fl er])
  qed
  show ?case
  proof (intro exI[of _ ld] conjI)
    show "\<forall>e\<in>set ?tr. \<forall>m p. fst e = TorchSave m p \<longrightarrow>
        p = os_path_join env ld ''quantized_model.pth''" using a by blast
    show "\<forall>e\<in>set ?tr. \<forall>d ex. fst e = OsMakedirs d ex \<longrightarrow> d = ld \<and> ex" using b by blast
    show "length (filter (\<lambda>n. n = ''torch.save'') (names ?tr)) \<le> 1" by (rule c)
    show "''torch.save'' \<in> set (names ?tr) \<longrightarrow>
        (\<exists>k1 k2 k3. names ?tr = notebook_calls uc k1 k2 k3) \<and>
        last (names ?tr) = ''torch.save'' \<and>
        (\<exists>w1 v. ?tr ! 1 = (OsMakedirs ld True, w1, Inr v))" using d by blast
    show "\<forall>g'. r = Inr g' \<longrightarrow>
        logdir (config g') = ld \<and>
        length (filter (\<lambda>n. n = ''torch.save'') (names ?tr)) = 1" using e by blast
    show "(\<forall>c w. dirs_of w \<subseteq> dirs_of (snd (call_ext env c w))) \<and>
      (\<forall>c w. dirs_of w \<subseteq> dirs_of (snd (enter env c w))) \<and>
      (\<forall>d ex w v. fst (call_ext env (OsMakedirs d ex) w) = Inr v \<longrightarrow>
         d \<in> dirs_of (snd (call_ext env (OsMakedirs d ex) w))) \<longrightarrow>
      (\<forall>e\<in>set ?tr. \<forall>m p. fst e = TorchSave m p \<longrightarrow> ld \<in> dirs_of (fst (snd e)))"
    proof (intro impI ballI allI)
      fix e m p
      assume h: "(\<forall>c w. dirs_of w \<subseteq> dirs_of (snd (call_ext env c w))) \<and>
        (\<forall>c w. dirs_of w \<subseteq> dirs_of (snd (enter env c w))) \<and>
        (\<forall>d ex w v. fst (call_ext env (OsMakedirs d ex) w) = Inr v \<longrightarrow>
           d \<in> dirs_of (snd (call_ext env (OsMakedirs d ex) w)))"
        and mem: "e \<in> set ?tr" and sv: "fst e = TorchSave m p"
      from h have keep: "\<forall>c w. dirs_of w \<subseteq> dirs_of (snd (call_ext env c w))"
        by (rule conjunct1)
      from h have keep': "\<forall>c w. dirs_of w \<subseteq> dirs_of (snd (enter env c w))"
        by (rule conjunct2[THEN conjunct1])
      from h have mk: "\<forall>d ex w v. fst (call_ext env (OsMakedirs d ex) w) = Inr v \<longrightarrow>
           d \<in> dirs_of (snd (call_ext env (OsMakedirs d ex) w))"
        by (rule conjunct2[THEN conjunct2])
      show "ld \<in> dirs_of (fst (snd e))" by (rule f[OF keep keep' mk mem sv])
    qed
  qed
qed

theorem checkpoint_written_once_witness:
  "length (filter (\<lambda>n. n = ''torch.save'')
     (names (trace (snd (notebook (toy_env True) toy_inc ''/data/imagenet'' True
                           toy_world_init))))) = 1 \<and>
   ''benchmark_output/cle_bc_2021-06-01-12-00-00''
     \<in> set (dirs (fst (snd (last (trace (snd (notebook (toy_env True) toy_inc
                                                   ''/data/imagenet'' True toy_world_init)))))))"
proof -
  let ?run = "notebook (toy_env True) toy_inc ''/data/imagenet'' True toy_world_init"
  from toy_run_returns obtain g' where g: "fst ?run = Inr g'" ..
  have mk: "(OsMakedirs ''benchmark_output/cle_bc_2021-06-01-12-00-00'' True,
             \<lparr>next_id = 0, dirs = []\<rparr>, Inr PyNone) \<in> set (trace (snd ?run))"
    by (simp add: run_defs toy_defs)
  have sv: "(TorchSave (PyObj 0)
               ''benchmark_output/cle_bc_2021-06-01-12-00-00/quantized_model.pth'',
             \<lparr>next_id = 28, dirs = [''benchmark_output/cle_bc_2021-06-01-12-00-00'']\<rparr>,
             Inr PyNone) \<in> set (trace (snd ?run))"
    by (simp add: run_defs toy_defs)
  from checkpoint_written_once[where env = "toy_env True" and inc = toy_inc
      and dir = "''/data/imagenet''" and uc = True and w = toy_world_init
      and dirs_of = "\<lambda>w. set (dirs w)", OF prod.collapse[symmetric]]
  obtain ld where
    c2: "\<forall>e\<in>set (trace (snd ?run)). \<forall>d ex. fst e = OsMakedirs d ex \<longrightarrow> d = ld \<and> ex"
    and c5: "\<forall>g'. fst ?run = Inr g' \<longrightarrow> logdir (config g') = ld \<and>
        length (filter (\<lambda>n. n = ''torch.save'') (names (trace (snd ?run)))) = 1"
    and c6: "(\<forall>c w. set (dirs w) \<subseteq> set (dirs (snd (call_ext (toy_env True) c w)))) \<and>
      (\<forall>c w. set (dirs w) \<subseteq> set (dirs (snd (enter (toy_env True) c w)))) \<and>
      (\<forall>d ex w v. fst (call_ext (toy_env True) (OsMakedirs d ex) w) = Inr v \<longrightarrow>
         d \<in> set (dirs (snd (call_ext (toy_env True) (OsMakedirs d ex) w)))) \<longrightarrow>
      (\<forall>e\<in>set (trace (snd ?run)). \<forall>m p. fst e = TorchSave m p \<longrightarrow>
         ld \<in> set (dirs (fst (snd e))))"
    by (elim exE conjE)
  from c2[rule_format, OF mk fst_conv] have ld: "ld = ''benchmark_output/cle_bc_2021-06-01-12-00-00''"
    by simp
  from c5[rule_format, OF g] have n: "length (filter (\<lambda>n. n = ''torch.save'')
     (names (trace (snd ?run)))) = 1" by (rule conjunct2)
  from c6[rule_format,
      OF conjI[OF toy_keeps_dirs conjI[OF toy_enter_keeps_dirs toy_makedirs_creates]]
        sv fst_conv]
  have "ld \<in> set (dirs \<lparr>next_id = 28, dirs = [''benchmark_output/cle_bc_2021-06-01-12-00-00'']\<rparr>)"
    by simp
  moreover have "last (trace (snd ?run)) =
            (TorchSave (PyObj 0)
               ''benchmark_output/cle_bc_2021-06-01-12-00-00/quantized_model.pth'',
             \<lparr>next_id = 28, dirs = [''benchmark_output/cle_bc_2021-06-01-12-00-00'']\<rparr>,
             Inr PyNone)"
    by (simp add: run_defs toy_defs)
  ultimately show ?thesis using ld n by simp
qed

subsection \<open>Moves to the accelerator\<close>

text \<open>
  C8, as stated, fails for the model: with \<^verbatim>\<open>use_cuda\<close> True and no CUDA device, the
  guard raises and the model is not moved. The run below is given \<^verbatim>\<open>use_cuda = True\<close>; it
  ends with the exception of the guard after three calls, none of them \<^verbatim>\<open>model.to\<close>.
\<close>

theorem model_not_moved_counterexample:
  "fst (notebook (toy_env False) toy_inc ''/data/imagenet'' True toy_world_init)
     = Inl (Raised ''use_cuda is True but cuda is unavailable'') \<and>
   names (trace (snd (notebook (toy_env False) toy_inc ''/data/imagenet'' True toy_world_init)))
     = [''warnings.filterwarnings'', ''os.makedirs'', ''resnet18'']"
  by (simp add: run_defs toy_defs names_def)

text \<open>
  C8, amended. In every run, every \<^verbatim>\<open>.to\<close> of a module or of a tensor is to the CUDA
  device and is made only if \<^verbatim>\<open>use_cuda\<close> is True; the calls of a run, those of the
  callback included, are a prefix of \<open>notebook_calls\<close> (for the numbers of invocations of
  the callback that the library chose), which has no other call that manages a resource;
  a run that returns
  has moved the model once and a tensor three times if \<^verbatim>\<open>use_cuda\<close> is True, and has
  moved nothing otherwise. The guard moves the model exactly when \<^verbatim>\<open>use_cuda\<close> is True and
  CUDA is available. The three lines that make a dummy input call \<^verbatim>\<open>torch.rand\<close> and, when
  it returns \<open>t\<close>, move \<open>t\<close> exactly when \<^verbatim>\<open>use_cuda\<close> is True; the dummy input is then what
  \<^verbatim>\<open>t.to\<close> returned, and otherwise \<open>t\<close> itself.
\<close>

theorem cuda_moves_are_gated:
  assumes "notebook env inc dir uc w = (r, s')"
  shows "(\<forall>e\<in>set (trace s').
            (\<forall>m d. fst e = ModuleTo m d \<longrightarrow> uc \<and> d = TorchDevice ''cuda'') \<and>
            (\<forall>t d. fst e = TensorTo t d \<longrightarrow> uc \<and> d = TorchDevice ''cuda'')) \<and>
         (\<exists>k1 k2 k3. prefix (names (trace s')) (notebook_calls uc k1 k2 k3)) \<and>
         (\<forall>g'. r = Inr g' \<longrightarrow>
            length (filter (\<lambda>n. n = ''model.to'') (names (trace s'))) = (if uc then 1 else 0) \<and>
            length (filter (\<lambda>n. n = ''tensor.to'') (names (trace s'))) = (if uc then 3 else 0)) \<and>
         calls (appended s (snd (use_cuda_guard env g s))) =
           (if use_cuda (config g) \<and> cuda_is_available env (world s)
            then [ModuleTo (model g) (TorchDevice ''cuda'')] else []) \<and>
         calls (appended s (snd (make_dummy_input env g s))) =
           TorchRand [1, 3, 224, 224] #
           (case fst (call_ext env (TorchRand [1, 3, 224, 224]) (world s)) of
              Inl x \<Rightarrow> []
            | Inr t \<Rightarrow> if use_cuda (config g) then [TensorTo t (TorchDevice ''cuda'')] else []) \<and>
         (\<forall>g' s1. make_dummy_input env g s = (Inr g', s1) \<longrightarrow>
            (if use_cuda (config g)
             then \<exists>t. returned_by (appended s s1) (TorchRand [1, 3, 224, 224]) t \<and>
                      returned_by (appended s s1) (TensorTo t (TorchDevice ''cuda''))
                        (dummy_input g')
             else returned_by (appended s s1) (TorchRand [1, 3, 224, 224]) (dummy_input g')))"
proof -
  have nb: "(\<forall>e\<in>set (trace s').
            (\<forall>m d. fst e = ModuleTo m d \<longrightarrow> uc \<and> d = TorchDevice ''cuda'') \<and>
            (\<forall>t d. fst e = TensorTo t d \<longrightarrow> uc \<and> d = TorchDevice ''cuda'')) \<and>
         (\<exists>k1 k2 k3. prefix (names (trace s')) (notebook_calls uc k1 k2 k3)) \<and>
         (\<forall>g'. r = Inr g' \<longrightarrow>
            length (filter (\<lambda>n. n = ''model.to'') (names (trace s'))) = (if uc then 1 else 0) \<and>
            length (filter (\<lambda>n. n = ''tensor.to'') (names (trace s'))) = (if uc then 3 else 0))"
  proof (rule notebook_events_ok[OF assms], goal_cases)
    case (1 ld m0 k1 k2 k3)
    have a: "uc \<and> d = TorchDevice ''cuda''" if "e \<in> set (trace s')" "fst e = ModuleTo m d"
      for e m d
      using ok_eventD[OF 1(1) that(1)] that(2) by (simp add: ok_call_def)
    have b: "uc \<and> d = TorchDevice ''cuda''" if "e \<in> set (trace s')" "fst e = TensorTo t d"
      for e t d
      using ok_eventD[OF 1(1) that(1)] that(2) by (simp add: ok_call_def)
    have c: "length (filter (\<lambda>n. n = ''model.to'') (names (trace s'))) = (if uc then 1 else 0) \<and>
            length (filter (\<lambda>n. n = ''tensor.to'') (names (trace s'))) = (if uc then 3 else 0)"
      if "r = Inr g'" for g'
      using 1(3)[OF that]
      by (simp add: notebook_calls_def quantsim_names_def baseline_names_def model_names_def
            evaluate_names_def dummy_input_names_def filter_callback_names)
    from a b c 1(2) show ?case by blast
  qed
  have gd: "calls (appended s (snd (use_cuda_guard env g s))) =
           (if use_cuda (config g) \<and> cuda_is_available env (world s)
            then [ModuleTo (model g) (TorchDevice ''cuda'')] else [])"
    by (simp add: use_cuda_guard_def bnd_def ret_def raise_def ext_call_def calls_def
          appended_def torch_cuda_is_available_def split: prod.splits sum.splits)
  have di: "calls (appended s (snd (make_dummy_input env g s))) =
           TorchRand [1, 3, 224, 224] #
           (case fst (call_ext env (TorchRand [1, 3, 224, 224]) (world s)) of
              Inl x \<Rightarrow> []
            | Inr t \<Rightarrow> if use_cuda (config g) then [TensorTo t (TorchDevice ''cuda'')] else [])"
    by (simp add: make_dummy_input_def bnd_def ret_def ext_call_def calls_def
          appended_def Let_def split: prod.splits sum.splits)
  have dv: "\<forall>g' s1. make_dummy_input env g s = (Inr g', s1) \<longrightarrow>
            (if use_cuda (config g)
             then \<exists>t. returned_by (appended s s1) (TorchRand [1, 3, 224, 224]) t \<and>
                      returned_by (appended s s1) (TensorTo t (TorchDevice ''cuda''))
                        (dummy_input g')
             else returned_by (appended s s1) (TorchRand [1, 3, 224, 224]) (dummy_input g'))"
    by (auto simp: make_dummy_input_def bnd_def ret_def ext_call_def returned_by_def
          appended_def Let_def split: prod.splits sum.splits)
  from nb gd di dv show ?thesis by simp
qed

theorem cuda_moves_are_gated_witness:
  "length (filter (\<lambda>n. n = ''model.to'')
     (names (trace (snd (notebook (toy_env True) toy_inc ''/data/imagenet'' True
                           toy_world_init))))) = 1 \<and>
   length (filter (\<lambda>n. n = ''tensor.to'')
     (names (trace (snd (notebook (toy_env True) toy_inc ''/data/imagenet'' True
                           toy_world_init))))) = 3"
proof -
  from toy_run_returns obtain g' where
    g: "fst (notebook (toy_env True) toy_inc ''/data/imagenet'' True toy_world_init) = Inr g'" ..
  from cuda_moves_are_gated[OF prod.collapse[symmetric], THEN conjunct2, THEN conjunct2,
      THEN conjunct1, rule_format, OF g]
  show ?thesis by simp
qed

subsection \<open>The model object\<close>




subsection \<open>The baseline simulation\<close>

text \<open>
  C9, as stated, fails in its last clause: \<^verbatim>\<open>equalize_model\<close> is not the first call that
  changes the loaded model in place. Before the baseline stage the model cell has called
  \<^verbatim>\<open>model.to(torch.device('cuda'))\<close> (when \<^verbatim>\<open>use_cuda\<close> is set) and \<^verbatim>\<open>model.eval()\<close> on it.
  In the run below the loaded model is object 0, and the calls that change it in place
  are, in order, \<^verbatim>\<open>model.to\<close>, \<^verbatim>\<open>model.eval\<close>, \<^verbatim>\<open>equalize_model\<close> and \<^verbatim>\<open>correct_bias\<close>.
\<close>

theorem model_changed_before_equalization_counterexample:
  "trace (snd (notebook (toy_env True) toy_inc ''/data/imagenet'' True toy_world_init)) ! 2
     = (Resnet18 True,
        \<lparr>next_id = 0, dirs = [''benchmark_output/cle_bc_2021-06-01-12-00-00'']\<rparr>,
        Inr (PyObj 0)) \<and>
   loaded_changes flow_init
     (trace (snd (notebook (toy_env True) toy_inc ''/data/imagenet'' True toy_world_init)))
     = [''model.to'', ''model.eval'', ''equalize_model'', ''correct_bias'']"
  by (simp add: run_defs toy_defs flow_defs changes_in_place_def)

text \<open>
  C9, amended. In every run of the cell of the baseline simulation, from any state, with
  \<open>m\<close> the global \<^verbatim>\<open>model\<close>: the objects flow as \<open>flow_call\<close> says, so \<^verbatim>\<open>copy.deepcopy\<close> is
  given \<open>m\<close>, and \<^verbatim>\<open>fold_all_batch_norms\<close> and \<^verbatim>\<open>QuantizationSimModel\<close> are given what
  \<^verbatim>\<open>copy.deepcopy\<close> returned; unless \<^verbatim>\<open>copy.deepcopy\<close> hands back \<open>m\<close> itself, no call of the
  cell changes \<open>m\<close> in place; a run of the cell that returns has made the calls of
  \<open>baseline_names\<close> and has left the global \<^verbatim>\<open>model\<close> as it was. In every run of the
  notebook, unless \<^verbatim>\<open>copy.deepcopy\<close> hands back the loaded object itself, the calls that
  change the loaded object in place are a prefix of \<open>expected_changes\<close>, and all of it
  when the run returns: \<^verbatim>\<open>model.to\<close> (when \<^verbatim>\<open>use_cuda\<close> is set) and \<^verbatim>\<open>model.eval\<close> before the
  baseline stage, none in the baseline stage, and after it \<^verbatim>\<open>equalize_model\<close> first and
  \<^verbatim>\<open>correct_bias\<close> second.
\<close>

theorem baseline_simulation_uses_copy:
  assumes "cell_quantsim env inc g s = (r, s')"
    and "notebook env inc dir uc w = (rn, sn)"
  shows "flow_ok (flow_init\<lparr>loaded := Some (model g)\<rparr>) (appended s s') \<and>
         (\<not> copy_aliases (flow_init\<lparr>loaded := Some (model g)\<rparr>) (appended s s') \<longrightarrow>
            loaded_changes (flow_init\<lparr>loaded := Some (model g)\<rparr>) (appended s s') = []) \<and>
         (\<forall>g'. r = Inr g' \<longrightarrow>
            model g' = model g \<and>
            (\<exists>k. names (appended s s') = baseline_names (use_cuda (config g)) k)) \<and>
         (\<not> copy_aliases flow_init (trace sn) \<longrightarrow>
            prefix (loaded_changes flow_init (trace sn)) (expected_changes uc)) \<and>
         (\<forall>g'. rn = Inr g' \<and> \<not> copy_aliases flow_init (trace sn) \<longrightarrow>
            loaded_changes flow_init (trace sn) = expected_changes uc)"
proof -
  have a: "flow_ok (flow_init\<lparr>loaded := Some (model g)\<rparr>) (appended s s') \<and>
         (\<not> copy_aliases (flow_init\<lparr>loaded := Some (model g)\<rparr>) (appended s s') \<longrightarrow>
            loaded_changes (flow_init\<lparr>loaded := Some (model g)\<rparr>) (appended s s') = []) \<and>
         (\<forall>g'. r = Inr g' \<longrightarrow>
            model g' = model g \<and>
            (\<exists>k. names (appended s s') = baseline_names (use_cuda (config g)) k))"
    using stepsE[OF quantsim_flow assms(1)] by (cases r) simp_all
  have tr: "trace sn = trace (snd (notebook env inc dir uc w))"
    and rn: "rn = fst (notebook env inc dir uc w)"
    by (simp_all add: assms(2))
  have n: "notebook_cells env inc dir uc (state_init w) = (rn, sn)"
    using assms(2) by (simp add: notebook_def)
  have ap: "appended (state_init w) sn = trace sn"
    by (simp add: appended_def state_init_def)
  have b: "(\<not> copy_aliases flow_init (trace sn) \<longrightarrow>
            prefix (loaded_changes flow_init (trace sn)) (expected_changes uc)) \<and>
         (\<forall>g'. rn = Inr g' \<and> \<not> copy_aliases flow_init (trace sn) \<longrightarrow>
            loaded_changes flow_init (trace sn) = expected_changes uc)"
    using stepsE[OF notebook_changes n] unfolding ap by (cases rn) auto
  from a b show ?thesis by simp
qed

theorem baseline_simulation_uses_copy_witness:
  "loaded_changes flow_init
     (trace (snd (notebook (toy_env True) toy_inc ''/data/imagenet'' True toy_world_init)))
     = expected_changes True"
proof -
  let ?run = "notebook (toy_env True) toy_inc ''/data/imagenet'' True toy_world_init"
  from toy_run_returns obtain g' where g: "fst ?run = Inr g'" ..
  have na: "\<not> copy_aliases flow_init (trace (snd ?run))"
    by (simp add: run_defs toy_defs flow_defs)
  from baseline_simulation_uses_copy[where env = "toy_env True" and inc = toy_inc
      and dir = "''/data/imagenet''" and uc = True and w = toy_world_init
      and g = globals_init and s = "state_init toy_world_init",
      OF prod.collapse[symmetric] prod.collapse[symmetric],
      THEN conjunct2, THEN conjunct2, THEN conjunct2, THEN conjunct2, rule_format,
      OF conjI[OF g na]]
  show ?thesis .
qed

subsection \<open>The guard of the model cell\<close>

text \<open>
  C1. The guard ends with an exception of its own exactly when \<^verbatim>\<open>use_cuda\<close> is True and
  CUDA is unavailable, and the exception is then the one with the message of the source.
  When \<^verbatim>\<open>use_cuda\<close> is False the guard does nothing. When \<^verbatim>\<open>use_cuda\<close> is True and CUDA is
  available, it makes one call, \<^verbatim>\<open>model.to(torch.device('cuda'))\<close>, and goes on if that call
  returns. The model cell as a whole raises an exception of its own exactly when the
  model has been loaded, \<^verbatim>\<open>use_cuda\<close> is True and CUDA is then unavailable.
\<close>

theorem use_cuda_guard_raises_iff:
  "(fst (use_cuda_guard env g s) = Inl (Raised msg) \<longleftrightarrow>
      msg = ''use_cuda is True but cuda is unavailable'' \<and>
      use_cuda (config g) \<and> \<not> cuda_is_available env (world s)) \<and>
   (\<not> use_cuda (config g) \<longrightarrow> use_cuda_guard env g s = (Inr (), s)) \<and>
   (use_cuda (config g) \<and> cuda_is_available env (world s) \<longrightarrow>
      calls (appended s (snd (use_cuda_guard env g s))) =
        [ModuleTo (model g) (TorchDevice ''cuda'')] \<and>
      fst (use_cuda_guard env g s) =
        (case fst (call_ext env (ModuleTo (model g) (TorchDevice ''cuda'')) (world s)) of
           Inl x \<Rightarrow> Inl (External x)
         | Inr v \<Rightarrow> Inr ())) \<and>
   (fst (cell_model env inc g s) = Inl (Raised msg) \<longleftrightarrow>
      msg = ''use_cuda is True but cuda is unavailable'' \<and> use_cuda (config g) \<and>
      (\<exists>m w1. call_ext env (Resnet18 True) (world s) = (Inr m, w1) \<and>
              \<not> cuda_is_available env w1))"
proof -
  have a: "fst (use_cuda_guard env g s) = Inl (Raised msg) \<longleftrightarrow>
      msg = ''use_cuda is True but cuda is unavailable'' \<and>
      use_cuda (config g) \<and> \<not> cuda_is_available env (world s)"
    by (auto simp: use_cuda_guard_def bnd_def ret_def raise_def ext_call_def
          torch_cuda_is_available_def split: prod.splits sum.splits)
  have b: "\<not> use_cuda (config g) \<longrightarrow> use_cuda_guard env g s = (Inr (), s)"
    by (simp add: use_cuda_guard_def ret_def)
  have c: "use_cuda (config g) \<and> cuda_is_available env (world s) \<longrightarrow>
      calls (appended s (snd (use_cuda_guard env g s))) =
        [ModuleTo (model g) (TorchDevice ''cuda'')] \<and>
      fst (use_cuda_guard env g s) =
        (case fst (call_ext env (ModuleTo (model g) (TorchDevice ''cuda'')) (world s)) of
           Inl x \<Rightarrow> Inl (External x)
         | Inr v \<Rightarrow> Inr ())"
    by (simp add: use_cuda_guard_def bnd_def ret_def raise_def ext_call_def calls_def
          appended_def torch_cuda_is_available_def split: prod.splits sum.splits)
  have d: "fst (cell_model env inc g s) = Inl (Raised msg) \<longleftrightarrow>
      msg = ''use_cuda is True but cuda is unavailable'' \<and> use_cuda (config g) \<and>
      (\<exists>m w1. call_ext env (Resnet18 True) (world s) = (Inr m, w1) \<and>
              \<not> cuda_is_available env w1)"
    by (auto simp: cell_model_def use_cuda_guard_def ImageNetDataPipeline_evaluate_def
          ImageNetDataPipeline_init_def Let_def bnd_def ret_def raise_def ext_call_def
          torch_cuda_is_available_def split: prod.splits sum.splits)
  from a b c d show ?thesis by simp
qed

theorem use_cuda_guard_raises_iff_witness:
  "fst (use_cuda_guard (toy_env False)
          (globals_init\<lparr>config := \<lparr>dataset_dir = ''/data/imagenet'', use_cuda = True,
                                    logdir = ''out''\<rparr>\<rparr>)
          \<lparr>world = toy_world_init, trace = []\<rparr>)
     = Inl (Raised ''use_cuda is True but cuda is unavailable'') \<and>
   fst (cell_model (toy_env False) toy_inc
          (globals_init\<lparr>config := \<lparr>dataset_dir = ''/data/imagenet'', use_cuda = True,
                                    logdir = ''out''\<rparr>\<rparr>)
          \<lparr>world = toy_world_init, trace = []\<rparr>)
     = Inl (Raised ''use_cuda is True but cuda is unavailable'')"
  using use_cuda_guard_raises_iff
    [where env = "toy_env False" and inc = toy_inc
       and g = "globals_init\<lparr>config := \<lparr>dataset_dir = ''/data/imagenet'', use_cuda = True,
                                         logdir = ''out''\<rparr>\<rparr>"
       and s = "\<lparr>world = toy_world_init, trace = []\<rparr>"
       and msg = "''use_cuda is True but cuda is unavailable''"]
  by (simp add: toy_defs)
end
